theory Spec2Isabelle
  imports Complex_Main "HOL-Library.Sublist" "HOL-Library.Char_ord" "HOL-Library.List_Lexorder"
    "HOL-Library.Multiset"
begin

section \<open>Numbers\<close>

text \<open>
  Python and pandas compute with float64. A float64 value that is a number is modelled
  by the real it stands for, and a comparison of two floats is the comparison of these
  reals. The exceptional values are kept apart: a missing cell or an undefined result
  (NaN) is \<open>None\<close> in a \<open>real option\<close>, and the result of a division that can
  be undefined or infinite is an \<open>fval\<close>.
\<close>

datatype fval = Fin real | PInf | NaN

text \<open>
  The operations of float64 round their results, and some of them differ between
  versions of the libraries (the rounding to two decimals of a numpy scalar, the order
  in which pandas adds up a column). They are the parameter \<open>ops\<close> of every
  function that computes with floats: division, multiplication and subtraction,
  \<open>round(x, 2)\<close> on a Python float and on a numpy float, and the pandas mean and
  standard deviation of a column without NaN.
\<close>

record float_ops =
  fdiv :: "real \<Rightarrow> real \<Rightarrow> real"
  fmul :: "real \<Rightarrow> real \<Rightarrow> real"
  fsub :: "real \<Rightarrow> real \<Rightarrow> real"
  py_round :: "real \<Rightarrow> real"
  np_round :: "real \<Rightarrow> real"
  fmean :: "real list \<Rightarrow> real"
  fstd :: "real list \<Rightarrow> real"

text \<open>
  The nearest multiple of one hundredth of a real, a tie going to the even neighbour:
  what \<open>round(x, 2)\<close> aims at.
\<close>

definition rint :: "real \<Rightarrow> int" where
  "rint x =
     (let f = \<lfloor>x\<rfloor>; d = x - of_int f
      in if d < 1 / 2 then f
         else if 1 / 2 < d then f + 1
         else if even f then f else f + 1)"

definition round2 :: "real \<Rightarrow> real" where
  "round2 x = of_int (rint (x * 100)) / 100"

text \<open>
  What is assumed of the operations where a bound is stated. An exact result is in
  range when it is zero or of a magnitude between \<open>1 / huge\<close> and \<open>huge\<close>: float64
  neither overflows nor underflows there. In an accurate arithmetic each arithmetic
  result whose exact value is in range is within the relative error \<open>u\<close> of it, and a
  rounding to two decimals of an argument of magnitude at most \<open>10 * huge\<close> is within
  half a hundredth of the argument, up to that relative error. Float64 with rounding to
  nearest is such an arithmetic, for a \<open>u\<close> of a few unit roundoffs.
\<close>

definition huge :: real where
  "huge = 10 ^ 300"

definition in_range :: "real \<Rightarrow> bool" where
  "in_range t \<longleftrightarrow> t = 0 \<or> (1 / huge \<le> \<bar>t\<bar> \<and> \<bar>t\<bar> \<le> huge)"

definition accurate :: "float_ops \<Rightarrow> real \<Rightarrow> bool" where
  "accurate ops u \<longleftrightarrow>
     0 \<le> u
     \<and> (\<forall>a b. b \<noteq> 0 \<and> in_range (a / b) \<longrightarrow> \<bar>fdiv ops a b - a / b\<bar> \<le> u * \<bar>a / b\<bar>)
     \<and> (\<forall>a b. in_range (a * b) \<longrightarrow> \<bar>fmul ops a b - a * b\<bar> \<le> u * \<bar>a * b\<bar>)
     \<and> (\<forall>a b. in_range (a - b) \<longrightarrow> \<bar>fsub ops a b - (a - b)\<bar> \<le> u * \<bar>a - b\<bar>)
     \<and> (\<forall>x. \<bar>x\<bar> \<le> 10 * huge \<longrightarrow> \<bar>py_round ops x - x\<bar> \<le> 1 / 200 + u * (\<bar>x\<bar> + 1))
     \<and> (\<forall>x. \<bar>x\<bar> \<le> 10 * huge \<longrightarrow> \<bar>np_round ops x - x\<bar> \<le> 1 / 200 + u * (\<bar>x\<bar> + 1))"

text \<open>
  The arithmetic without rounding error. Float64 gives the same results wherever the
  operands and the exact result are float64 values; the closed examples of this theory
  are computed with it on such values.
\<close>

definition exact_ops :: float_ops where
  "exact_ops =
     \<lparr>fdiv = (\<lambda>a b. a / b), fmul = (\<lambda>a b. a * b), fsub = (\<lambda>a b. a - b),
      py_round = round2, np_round = round2,
      fmean = (\<lambda>vs. sum_list vs / real (length vs)),
      fstd = (\<lambda>vs. sqrt (sum_list (map (\<lambda>v. (v - sum_list vs / real (length vs))\<^sup>2) vs)
                          / real (length vs - 1)))\<rparr>"

definition round2_opt :: "float_ops \<Rightarrow> real option \<Rightarrow> real option" where
  "round2_opt ops = map_option (np_round ops)"

fun round2_fval :: "float_ops \<Rightarrow> fval \<Rightarrow> fval" where
  "round2_fval ops (Fin x) = Fin (np_round ops x)"
| "round2_fval ops PInf = PInf"
| "round2_fval ops NaN = NaN"

section \<open>extract\_prepositions.py\<close>

datatype error = ValueError | KeyError | ZeroDivisionError

definition TARGET_ADPOSITIONS :: "string list" where
  "TARGET_ADPOSITIONS =
     [''across'', ''through'', ''along'', ''past'', ''around'', ''beyond'']"

text \<open>
  A text file of the corpus: the stem of its name, and its decoded content, \<open>None\<close>
  when none of the encodings that \<open>read_text_file\<close> tries decodes it.
\<close>

record txt_file =
  stem :: string
  content :: "string option"

definition read_text_file :: "txt_file \<Rightarrow> error + string" where
  "read_text_file f = (case content f of None \<Rightarrow> Inl ValueError | Some t \<Rightarrow> Inr t)"

text \<open>\<open>str.lower\<close>, on the ASCII letters.\<close>

definition lower_char :: "char \<Rightarrow> char" where
  "lower_char c =
     (case map_of (zip ''ABCDEFGHIJKLMNOPQRSTUVWXYZ'' ''abcdefghijklmnopqrstuvwxyz'') c of
        Some l \<Rightarrow> l
      | None \<Rightarrow> c)"

definition lower :: "string \<Rightarrow> string" where
  "lower = map lower_char"

text \<open>
  \<open>nltk.word_tokenize\<close> is a library function, not code of the scripts: it is the
  parameter \<open>wt\<close> of everything that tokenizes.
\<close>

definition tokenize_text :: "(string \<Rightarrow> string list) \<Rightarrow> string \<Rightarrow> string list" where
  "tokenize_text wt text = wt (lower text)"

text \<open>
  The dictionaries keyed by adposition are association lists in the order of the target
  list, read with \<open>map_of\<close>. \<open>Counter(tokens).get(adp, 0)\<close> is the number of tokens
  equal to \<open>adp\<close>.
\<close>

definition count_adpositions :: "string list \<Rightarrow> string list \<Rightarrow> (string \<times> nat) list" where
  "count_adpositions tokens target_adpositions =
     map (\<lambda>adp. (adp, count_list tokens adp)) target_adpositions"

text \<open>
  Python's \<open>/\<close> on two integers raises on a zero divisor, and gives a float
  otherwise. A normalized frequency is that float times the integer 10000, or the
  integer 0 of the guard; \<open>round\<close> leaves an integer as it is.
\<close>

datatype pynum = PyInt int | PyFloat real

fun num_value :: "pynum \<Rightarrow> real" where
  "num_value (PyInt i) = of_int i"
| "num_value (PyFloat x) = x"

fun round_num :: "float_ops \<Rightarrow> pynum \<Rightarrow> pynum" where
  "round_num ops (PyInt i) = PyInt i"
| "round_num ops (PyFloat x) = PyFloat (py_round ops x)"

definition truediv :: "float_ops \<Rightarrow> nat \<Rightarrow> nat \<Rightarrow> error + real" where
  "truediv ops a b =
     (if b = 0 then Inl ZeroDivisionError else Inr (fdiv ops (real a) (real b)))"

fun normalized_items ::
  "float_ops \<Rightarrow> (string \<times> nat) list \<Rightarrow> nat \<Rightarrow> real \<Rightarrow> error + (string \<times> pynum) list" where
  "normalized_items ops [] n_words per_n_words = Inr []"
| "normalized_items ops ((adp, c) # rest) n_words per_n_words =
     (case truediv ops c n_words of
        Inl e \<Rightarrow> Inl e
      | Inr q \<Rightarrow>
          (case normalized_items ops rest n_words per_n_words of
             Inl e \<Rightarrow> Inl e
           | Inr m \<Rightarrow> Inr ((adp, PyFloat (fmul ops q per_n_words)) # m)))"

definition normalize_frequency ::
  "float_ops \<Rightarrow> (string \<times> nat) list \<Rightarrow> nat \<Rightarrow> real \<Rightarrow> error + (string \<times> pynum) list" where
  "normalize_frequency ops cnts n_words per_n_words =
     (if n_words = 0 then Inr (map (\<lambda>(adp, c). (adp, PyInt 0)) cnts)
      else normalized_items ops cnts n_words per_n_words)"

text \<open>
  One row of the raw dataset: the dictionary \<open>results\<close>, as the analysis reads it
  back from the file. The cells \<open>{adp}_count\<close> and \<open>{adp}_per_10k\<close> are the
  association lists \<open>counts\<close> and \<open>per_10k\<close>, the rates as floats; an adposition
  without an entry has no such cell in this row.
\<close>

record work_row =
  author :: string
  work :: string
  total_words :: nat
  counts :: "(string \<times> nat) list"
  per_10k :: "(string \<times> real) list"

text \<open>The body of \<open>process_corpus_file\<close> from the token list on.\<close>

definition results_of_tokens ::
  "float_ops \<Rightarrow> string list \<Rightarrow> string \<Rightarrow> string \<Rightarrow> error + work_row" where
  "results_of_tokens ops tokens filename auth =
     (let n_words = length tokens;
          adp_counts = count_adpositions tokens TARGET_ADPOSITIONS
      in case normalize_frequency ops adp_counts n_words 10000 of
           Inl e \<Rightarrow> Inl e
         | Inr normalized_freq \<Rightarrow>
             Inr \<lparr>author = auth, work = filename, total_words = n_words,
                  counts = adp_counts,
                  per_10k = map (\<lambda>(adp, freq). (adp, num_value (round_num ops freq)))
                              normalized_freq\<rparr>)"

definition process_corpus_file ::
  "float_ops \<Rightarrow> (string \<Rightarrow> string list) \<Rightarrow> txt_file \<Rightarrow> string \<Rightarrow> error + work_row" where
  "process_corpus_file ops wt f auth =
     (case read_text_file f of
        Inl e \<Rightarrow> Inl e
      | Inr text \<Rightarrow> results_of_tokens ops (tokenize_text wt text) (stem f) auth)"

text \<open>Python's \<open>work_title in filename\<close>: a contiguous occurrence.\<close>

fun is_substring :: "string \<Rightarrow> string \<Rightarrow> bool" where
  "is_substring t [] = (t = [])"
| "is_substring t (c # cs) = (prefix t (c # cs) \<or> is_substring t cs)"

definition author_mapping :: "(string \<times> string) list" where
  "author_mapping =
     [(''Winesburg, Ohio'', ''Sherwood Anderson''),
      (''The Great Gatsby'', ''F. Scott Fitzgerald''),
      (''Manhattan Transfer'', ''John Dos Passos''),
      (''As I Lay Dying'', ''William Faulkner''),
      (''1919'', ''John Dos Passos''),
      (''Of Mice and Men'', ''John Steinbeck'')]"

fun first_match :: "(string \<times> string) list \<Rightarrow> string \<Rightarrow> string" where
  "first_match [] filename = ''Unknown Author''"
| "first_match ((work_title, auth) # rest) filename =
     (if is_substring work_title filename then auth else first_match rest filename)"

definition get_author_from_filename :: "string \<Rightarrow> string" where
  "get_author_from_filename filename = first_match author_mapping filename"

text \<open>
  \<open>process_author_corpus\<close>: the folder is \<open>None\<close> when it does not exist, else the
  list of its text files. A file whose processing raises is reported and left out.
\<close>

definition actual_author :: "string \<Rightarrow> txt_file \<Rightarrow> string" where
  "actual_author author_name f =
     (if author_name = ''comparables'' then get_author_from_filename (stem f)
      else author_name)"

fun process_files ::
  "float_ops \<Rightarrow> (string \<Rightarrow> string list) \<Rightarrow> string \<Rightarrow> txt_file list \<Rightarrow> work_row list" where
  "process_files ops wt author_name [] = []"
| "process_files ops wt author_name (f # fs) =
     (case process_corpus_file ops wt f (actual_author author_name f) of
        Inl e \<Rightarrow> process_files ops wt author_name fs
      | Inr result \<Rightarrow> result # process_files ops wt author_name fs)"

definition process_author_corpus ::
  "float_ops \<Rightarrow> (string \<Rightarrow> string list) \<Rightarrow> txt_file list option \<Rightarrow> string \<Rightarrow> work_row list" where
  "process_author_corpus ops wt folder author_name =
     (case folder of
        None \<Rightarrow> []
      | Some txt_files \<Rightarrow> process_files ops wt author_name txt_files)"

text \<open>The loop of \<open>main\<close> over the two corpus folders.\<close>

definition all_results ::
  "float_ops \<Rightarrow> (string \<Rightarrow> string list) \<Rightarrow> txt_file list option \<Rightarrow> txt_file list option
     \<Rightarrow> work_row list" where
  "all_results ops wt hemingway_folder comparables_folder =
     process_author_corpus ops wt hemingway_folder ''hemingway''
       @ process_author_corpus ops wt comparables_folder ''comparables''"

section \<open>analyze\_frequency.py\<close>

text \<open>
  A table of works, as \<open>pd.read_csv\<close> gives it back: the adpositions that have a
  column \<open>{adp}_count\<close>, those that have a column \<open>{adp}_per_10k\<close>, and the
  rows. A row without an entry for a column that the table has holds NaN there.
\<close>

record dataframe =
  count_columns :: "string list"
  freq_columns :: "string list"
  rows :: "work_row list"

text \<open>\<open>pd.DataFrame(all_results)\<close>, for the rows that the extraction produced.\<close>

definition to_dataframe :: "work_row list \<Rightarrow> dataframe" where
  "to_dataframe results =
     \<lparr>count_columns = TARGET_ADPOSITIONS, freq_columns = TARGET_ADPOSITIONS, rows = results\<rparr>"

text \<open>\<open>Series.unique()\<close>: the values in the order of their first appearance.\<close>

definition unique :: "'a list \<Rightarrow> 'a list" where
  "unique xs = rev (remdups (rev xs))"

text \<open>
  The pandas reductions leave NaN out; on nothing left the mean, the minimum and the
  maximum are NaN, and so is the standard deviation on fewer than two values.
\<close>

fun dropna :: "'a option list \<Rightarrow> 'a list" where
  "dropna [] = []"
| "dropna (None # xs) = dropna xs"
| "dropna (Some v # xs) = v # dropna xs"

definition series_sum :: "nat option list \<Rightarrow> nat" where
  "series_sum xs = sum_list (dropna xs)"

definition series_mean :: "float_ops \<Rightarrow> real option list \<Rightarrow> real option" where
  "series_mean ops xs =
     (let vs = dropna xs in if vs = [] then None else Some (fmean ops vs))"

definition series_std :: "float_ops \<Rightarrow> real option list \<Rightarrow> real option" where
  "series_std ops xs =
     (let vs = dropna xs in if length vs < 2 then None else Some (fstd ops vs))"

definition series_min :: "real option list \<Rightarrow> real option" where
  "series_min xs =
     (let vs = dropna xs in if vs = [] then None else Some (fold min (tl vs) (hd vs)))"

definition series_max :: "real option list \<Rightarrow> real option" where
  "series_max xs =
     (let vs = dropna xs in if vs = [] then None else Some (fold max (tl vs) (hd vs)))"

definition count_col :: "work_row list \<Rightarrow> string \<Rightarrow> nat option list" where
  "count_col rs adp = map (\<lambda>r. map_of (counts r) adp) rs"

definition freq_col :: "work_row list \<Rightarrow> string \<Rightarrow> real option list" where
  "freq_col rs adp = map (\<lambda>r. map_of (per_10k r) adp) rs"

definition author_df :: "dataframe \<Rightarrow> string \<Rightarrow> work_row list" where
  "author_df df a = filter (\<lambda>r. author r = a) (rows df)"

record adp_stat =
  total_count :: nat
  avg_per_10k :: "real option"
  std_per_10k :: "real option"

record author_stats =
  as_author :: string
  num_works :: nat
  as_total_words :: nat
  avg_words_per_work :: "real option"
  adp_stats :: "(string \<times> adp_stat) list"

definition adposition_stat :: "float_ops \<Rightarrow> work_row list \<Rightarrow> string \<Rightarrow> adp_stat" where
  "adposition_stat ops adf adp =
     \<lparr>total_count = series_sum (count_col adf adp),
      avg_per_10k = round2_opt ops (series_mean ops (freq_col adf adp)),
      std_per_10k = round2_opt ops (series_std ops (freq_col adf adp))\<rparr>"

text \<open>
  The loop over the target adpositions in \<open>calculate_author_statistics\<close>: only the
  count column is tested, so a missing rate column raises.
\<close>

fun adp_stats_loop ::
  "float_ops \<Rightarrow> dataframe \<Rightarrow> work_row list \<Rightarrow> string list \<Rightarrow> (string \<times> adp_stat) list
     \<Rightarrow> error + (string \<times> adp_stat) list" where
  "adp_stats_loop ops df adf [] acc = Inr acc"
| "adp_stats_loop ops df adf (adp # rest) acc =
     (if adp \<in> set (count_columns df) then
        (if adp \<in> set (freq_columns df) then
           adp_stats_loop ops df adf rest (acc @ [(adp, adposition_stat ops adf adp)])
         else Inl KeyError)
      else adp_stats_loop ops df adf rest acc)"

definition author_statistics ::
  "float_ops \<Rightarrow> dataframe \<Rightarrow> string list \<Rightarrow> string \<Rightarrow> error + author_stats" where
  "author_statistics ops df target_adpositions a =
     (let adf = author_df df a
      in case adp_stats_loop ops df adf target_adpositions [] of
           Inl e \<Rightarrow> Inl e
         | Inr st \<Rightarrow>
             Inr \<lparr>as_author = a, num_works = length adf,
                  as_total_words = sum_list (map total_words adf),
                  avg_words_per_work =
                    series_mean ops (map (\<lambda>r. Some (real (total_words r))) adf),
                  adp_stats = st\<rparr>)"

fun stats_loop ::
  "float_ops \<Rightarrow> dataframe \<Rightarrow> string list \<Rightarrow> string list \<Rightarrow> error + author_stats list" where
  "stats_loop ops df target_adpositions [] = Inr []"
| "stats_loop ops df target_adpositions (a # rest) =
     (case author_statistics ops df target_adpositions a of
        Inl e \<Rightarrow> Inl e
      | Inr s \<Rightarrow>
          (case stats_loop ops df target_adpositions rest of
             Inl e \<Rightarrow> Inl e
           | Inr ss \<Rightarrow> Inr (s # ss)))"

definition calculate_author_statistics ::
  "float_ops \<Rightarrow> dataframe \<Rightarrow> string list \<Rightarrow> error + author_stats list" where
  "calculate_author_statistics ops df target_adpositions =
     stats_loop ops df target_adpositions (unique (map author (rows df)))"

text \<open>
  A pandas division of a column of counts by a column of word counts does not raise on
  a zero divisor: it gives NaN for 0/0 and infinity for a positive count.
\<close>

definition series_truediv :: "float_ops \<Rightarrow> nat \<Rightarrow> nat \<Rightarrow> fval" where
  "series_truediv ops a b =
     (if b = 0 then (if a = 0 then NaN else PInf) else Fin (fdiv ops (real a) (real b)))"

fun times_10000 :: "float_ops \<Rightarrow> fval \<Rightarrow> fval" where
  "times_10000 ops (Fin x) = Fin (fmul ops x 10000)"
| "times_10000 ops PInf = PInf"
| "times_10000 ops NaN = NaN"

record enriched_row = work_row +
  total_adpositions_count :: nat
  total_adpositions_per_10k :: fval

definition enrich_row :: "float_ops \<Rightarrow> string list \<Rightarrow> work_row \<Rightarrow> enriched_row" where
  "enrich_row ops target_adpositions r =
     (let tc = series_sum (map (\<lambda>adp. map_of (counts r) adp) target_adpositions)
      in work_row.extend r
           \<lparr>total_adpositions_count = tc,
            total_adpositions_per_10k =
              times_10000 ops (series_truediv ops tc (total_words r))\<rparr>)"

definition calculate_total_adpositions ::
  "float_ops \<Rightarrow> dataframe \<Rightarrow> string list \<Rightarrow> error + enriched_row list" where
  "calculate_total_adpositions ops df target_adpositions =
     (if list_all (\<lambda>adp. adp \<in> set (count_columns df)) target_adpositions
      then Inr (map (enrich_row ops target_adpositions) (rows df))
      else Inl KeyError)"

record summary_entry =
  fs_author :: string
  adposition :: string
  mean_frequency :: "real option"
  std_frequency :: "real option"
  min_frequency :: "real option"
  max_frequency :: "real option"

definition summary_of_author ::
  "float_ops \<Rightarrow> dataframe \<Rightarrow> string list \<Rightarrow> string \<Rightarrow> summary_entry list" where
  "summary_of_author ops df target_adpositions a =
     (let adf = author_df df a
      in concat (map (\<lambda>adp.
           if adp \<in> set (freq_columns df)
           then [\<lparr>fs_author = a, adposition = adp,
                   mean_frequency = round2_opt ops (series_mean ops (freq_col adf adp)),
                   std_frequency = round2_opt ops (series_std ops (freq_col adf adp)),
                   min_frequency = round2_opt ops (series_min (freq_col adf adp)),
                   max_frequency = round2_opt ops (series_max (freq_col adf adp))\<rparr>]
           else []) target_adpositions))"

definition create_frequency_summary ::
  "float_ops \<Rightarrow> dataframe \<Rightarrow> string list \<Rightarrow> summary_entry list" where
  "create_frequency_summary ops df target_adpositions =
     concat (map (summary_of_author ops df target_adpositions) (unique (map author (rows df))))"

section \<open>compare\_authors.py\<close>

text \<open>
  The comparison matrix: its row labels, its column labels, and its cells (\<open>None\<close>
  is NaN). \<open>DataFrame.pivot\<close> raises \<open>ValueError\<close> when two rows of its input have
  the same pair of labels, and gives the labels sorted.
\<close>

record matrix =
  index :: "string list"
  columns :: "string list"
  cell :: "string \<Rightarrow> string \<Rightarrow> real option"

definition pivot_cell :: "summary_entry list \<Rightarrow> string \<Rightarrow> string \<Rightarrow> real option" where
  "pivot_cell summary a adp =
     (case find (\<lambda>e. fs_author e = a \<and> adposition e = adp) summary of
        None \<Rightarrow> None
      | Some e \<Rightarrow> mean_frequency e)"

definition create_comparison_matrix :: "summary_entry list \<Rightarrow> error + matrix" where
  "create_comparison_matrix frequency_summary =
     (if distinct (map (\<lambda>e. (fs_author e, adposition e)) frequency_summary)
      then Inr \<lparr>index = sort (remdups (map fs_author frequency_summary)),
                columns = sort (remdups (map adposition frequency_summary)),
                cell = pivot_cell frequency_summary\<rparr>
      else Inl ValueError)"

text \<open>
  \<open>calculate_author_rankings\<close>: each column sorted by value, the greatest first and
  the NaN cells last. Among equal values the authors are kept here in the order of the
  rows; pandas does not fix that order.
\<close>

definition column_ranking :: "matrix \<Rightarrow> string \<Rightarrow> (string \<times> real option) list" where
  "column_ranking m adp =
     (let col = map (\<lambda>a. (a, cell m a adp)) (index m)
      in sort_key (\<lambda>(a, v). - the v) (filter (\<lambda>(a, v). v \<noteq> None) col)
           @ filter (\<lambda>(a, v). v = None) col)"

definition calculate_author_rankings ::
  "matrix \<Rightarrow> (string \<times> (string \<times> real option) list) list" where
  "calculate_author_rankings m = map (\<lambda>adp. (adp, column_ranking m adp)) (columns m)"

record baseline_entry =
  bc_author :: string
  bc_adposition :: string
  hemingway_freq :: "real option"
  author_freq :: "real option"
  difference :: "real option"
  ratio :: fval

definition baseline_entry_of :: "float_ops \<Rightarrow> matrix \<Rightarrow> string \<Rightarrow> string \<Rightarrow> baseline_entry" where
  "baseline_entry_of ops m a adp =
     (let hem_freq = cell m ''hemingway'' adp;
          auth_freq = cell m a adp;
          diff = (case (auth_freq, hem_freq) of
                    (Some x, Some h) \<Rightarrow> Some (fsub ops x h)
                  | _ \<Rightarrow> None);
          rat = (case hem_freq of
                   Some h \<Rightarrow>
                     if h > 0
                     then (case auth_freq of Some x \<Rightarrow> Fin (fdiv ops x h) | None \<Rightarrow> NaN)
                     else PInf
                 | None \<Rightarrow> PInf)
      in \<lparr>bc_author = a, bc_adposition = adp,
          hemingway_freq = round2_opt ops hem_freq,
          author_freq = round2_opt ops auth_freq,
          difference = round2_opt ops diff,
          ratio = round2_fval ops rat\<rparr>)"

definition compare_to_hemingway :: "float_ops \<Rightarrow> matrix \<Rightarrow> baseline_entry list option" where
  "compare_to_hemingway ops m =
     (if ''hemingway'' \<notin> set (index m) then None
      else Some (concat (map (\<lambda>a. map (baseline_entry_of ops m a) (columns m))
                   (filter (\<lambda>a. a \<noteq> ''hemingway'') (index m)))))"

record distinctive_feature =
  df_author :: string
  df_adposition :: string
  author_frequency :: real
  others_mean_frequency :: real
  df_ratio :: real
  distinctive_level :: string

definition other_freq_mean :: "float_ops \<Rightarrow> matrix \<Rightarrow> string \<Rightarrow> string \<Rightarrow> real option" where
  "other_freq_mean ops m a adp =
     series_mean ops
       (map (\<lambda>other. cell m other adp) (filter (\<lambda>other. other \<noteq> a) (index m)))"

definition feature_of ::
  "float_ops \<Rightarrow> matrix \<Rightarrow> real \<Rightarrow> string \<Rightarrow> string \<Rightarrow> distinctive_feature list" where
  "feature_of ops m threshold a adp =
     (case other_freq_mean ops m a adp of
        None \<Rightarrow> []
      | Some om \<Rightarrow>
          if om > 0 then
            (case cell m a adp of
               None \<Rightarrow> []
             | Some af \<Rightarrow>
                 (let r = fdiv ops af om
                  in if r \<ge> threshold
                     then [\<lparr>df_author = a, df_adposition = adp,
                             author_frequency = np_round ops af,
                             others_mean_frequency = np_round ops om,
                             df_ratio = np_round ops r,
                             distinctive_level = (if r \<ge> 2 then ''high'' else ''moderate'')\<rparr>]
                     else []))
          else [])"

definition identify_distinctive_features ::
  "float_ops \<Rightarrow> matrix \<Rightarrow> real \<Rightarrow> distinctive_feature list" where
  "identify_distinctive_features ops m threshold =
     concat (map (\<lambda>a. concat (map (feature_of ops m threshold a) (columns m))) (index m))"

section \<open>The scripts in sequence\<close>

text \<open>
  The three \<open>main\<close> functions pass their tables on through files: the raw dataset,
  the frequency summary, then the comparison matrix, on which the distinctive features
  are found with the default threshold.
\<close>

definition corpus_matrix :: "float_ops \<Rightarrow> work_row list \<Rightarrow> error + matrix" where
  "corpus_matrix ops results =
     create_comparison_matrix
       (create_frequency_summary ops (to_dataframe results) TARGET_ADPOSITIONS)"

definition corpus_features ::
  "float_ops \<Rightarrow> work_row list \<Rightarrow> error + distinctive_feature list" where
  "corpus_features ops results =
     (case corpus_matrix ops results of
        Inl e \<Rightarrow> Inl e
      | Inr m \<Rightarrow> Inr (identify_distinctive_features ops m (3 / 2)))"

section \<open>What the specification describes\<close>

text \<open>
  The definitions of this section follow the words of the specification, not the code:
  they are what the code is compared with.

  The tokens of the specification: the maximal runs of letters of the lower-cased
  text, so that no punctuation mark is a token.
\<close>

definition is_alpha :: "char \<Rightarrow> bool" where
  "is_alpha c \<longleftrightarrow>
     c \<in> set ''abcdefghijklmnopqrstuvwxyzABCDEFGHIJKLMNOPQRSTUVWXYZ''"

fun alpha_runs :: "string \<Rightarrow> string \<Rightarrow> string list" where
  "alpha_runs cur [] = (if cur = [] then [] else [cur])"
| "alpha_runs cur (c # cs) =
     (if is_alpha c then alpha_runs (cur @ [c]) cs
      else if cur = [] then alpha_runs [] cs
      else cur # alpha_runs [] cs)"

definition spec_tokens :: "string \<Rightarrow> string list" where
  "spec_tokens text = alpha_runs [] (lower text)"

text \<open>
  The comparisons of the specification, on values that were never rounded to two
  decimals: the rate of a row computed again from its count and its number of words,
  the mean of these rates per author, and the matrix of these means.
\<close>

definition unrounded_row :: "float_ops \<Rightarrow> work_row \<Rightarrow> work_row" where
  "unrounded_row ops r =
     r\<lparr>per_10k :=
          map (\<lambda>(adp, c). (adp, if total_words r = 0 then 0
                                 else fmul ops (fdiv ops (real c) (real (total_words r))) 10000))
            (counts r)\<rparr>"

definition unrounded_summary ::
  "float_ops \<Rightarrow> dataframe \<Rightarrow> string list \<Rightarrow> summary_entry list" where
  "unrounded_summary ops df target_adpositions =
     concat (map (\<lambda>a. map (\<lambda>adp.
        \<lparr>fs_author = a, adposition = adp,
         mean_frequency = series_mean ops (freq_col (map (unrounded_row ops) (author_df df a)) adp),
         std_frequency = series_std ops (freq_col (map (unrounded_row ops) (author_df df a)) adp),
         min_frequency = series_min (freq_col (map (unrounded_row ops) (author_df df a)) adp),
         max_frequency = series_max (freq_col (map (unrounded_row ops) (author_df df a)) adp)\<rparr>)
        target_adpositions) (unique (map author (rows df))))"

definition unrounded_features ::
  "float_ops \<Rightarrow> work_row list \<Rightarrow> error + distinctive_feature list" where
  "unrounded_features ops results =
     (case create_comparison_matrix
             (unrounded_summary ops (to_dataframe results) TARGET_ADPOSITIONS) of
        Inl e \<Rightarrow> Inl e
      | Inr m \<Rightarrow> Inr (identify_distinctive_features ops m (3 / 2)))"

section \<open>A tokenizer for the examples\<close>

text \<open>
  The closed examples below need a value for the tokenizer parameter. This one splits at
  blanks and makes each of the marks \<open>, . ; : ! ?\<close> a token of its own; on the
  short texts of the examples that is the list \<open>nltk.word_tokenize\<close> returns.
\<close>

fun split_tokens :: "string \<Rightarrow> string \<Rightarrow> string list" where
  "split_tokens cur [] = (if cur = [] then [] else [cur])"
| "split_tokens cur (c # cs) =
     (if c = CHR '' '' then (if cur = [] then [] else [cur]) @ split_tokens [] cs
      else if c \<in> set '',.;:!?'' then (if cur = [] then [] else [cur]) @ [c] # split_tokens [] cs
      else split_tokens (cur @ [c]) cs)"

definition example_tokenizer :: "string \<Rightarrow> string list" where
  "example_tokenizer text = split_tokens [] text"

section \<open>Rounding and the arithmetic without error\<close>

lemma rint_of_int [simp]: "rint (of_int k) = k"
  by (simp add: rint_def)

lemma round2_zero [simp]: "round2 0 = 0"
  using rint_of_int [of 0] by (simp add: round2_def)

lemma round2_of_int [simp]: "round2 (of_int k) = of_int k"
proof -
  have "rint (of_int (k * 100)) = k * 100" by (rule rint_of_int)
  then show ?thesis by (simp add: round2_def)
qed

lemma round2_numeral [simp]: "round2 (numeral n) = numeral n"
  using round2_of_int [of "numeral n"] by simp

lemma round2_one [simp]: "round2 1 = 1"
  using round2_of_int [of 1] by simp

lemma rint_bound: "\<bar>of_int (rint x) - x\<bar> \<le> 1 / 2"
proof -
  have "of_int \<lfloor>x\<rfloor> \<le> x" and "x < of_int \<lfloor>x\<rfloor> + 1" by linarith+
  then show ?thesis
    by (auto simp: rint_def Let_def abs_le_iff)
qed

lemma round2_bound: "\<bar>round2 x - x\<bar> \<le> 1 / 200"
proof -
  have "\<bar>of_int (rint (x * 100)) - x * 100\<bar> \<le> 1 / 2" by (rule rint_bound)
  then show ?thesis by (simp add: round2_def abs_le_iff field_simps)
qed

lemma exact_ops_simps [simp]:
  "fdiv exact_ops a b = a / b" "fmul exact_ops a b = a * b" "fsub exact_ops a b = a - b"
  "py_round exact_ops = round2" "np_round exact_ops = round2"
  "fmean exact_ops vs = sum_list vs / real (length vs)"
  by (simp_all add: exact_ops_def)

lemma fstd_exact:
  "fstd exact_ops vs =
     sqrt (sum_list (map (\<lambda>v. (v - sum_list vs / real (length vs))\<^sup>2) vs) / real (length vs - 1))"
  by (simp add: exact_ops_def)

lemma accurate_nonneg: "accurate ops u \<Longrightarrow> 0 \<le> u"
  unfolding accurate_def by blast

lemma huge_ge: "100000 \<le> huge"
proof -
  have "(10::real) ^ 5 \<le> 10 ^ 300" by (rule power_increasing) simp_all
  then show ?thesis by (simp add: huge_def)
qed

lemma in_range_le: "in_range t \<Longrightarrow> \<bar>t\<bar> \<le> huge"
  using huge_ge by (auto simp: in_range_def)

lemma in_range_mid: "1 \<le> \<bar>t\<bar> \<Longrightarrow> \<bar>t\<bar> \<le> 100000 \<Longrightarrow> in_range t"
proof -
  assume lo: "1 \<le> \<bar>t\<bar>" and hi: "\<bar>t\<bar> \<le> 100000"
  from huge_ge have "1 / huge \<le> 1" by simp
  with lo hi huge_ge show ?thesis unfolding in_range_def by linarith
qed

lemma accurate_div:
  "accurate ops u \<Longrightarrow> b \<noteq> 0 \<Longrightarrow> in_range (a / b)
   \<Longrightarrow> \<bar>fdiv ops a b - a / b\<bar> \<le> u * \<bar>a / b\<bar>"
  unfolding accurate_def by blast

lemma accurate_mul:
  "accurate ops u \<Longrightarrow> in_range (a * b) \<Longrightarrow> \<bar>fmul ops a b - a * b\<bar> \<le> u * \<bar>a * b\<bar>"
  unfolding accurate_def by blast

lemma accurate_sub:
  "accurate ops u \<Longrightarrow> in_range (a - b) \<Longrightarrow> \<bar>fsub ops a b - (a - b)\<bar> \<le> u * \<bar>a - b\<bar>"
  unfolding accurate_def by blast

lemma accurate_py_round:
  "accurate ops u \<Longrightarrow> \<bar>x\<bar> \<le> 10 * huge
   \<Longrightarrow> \<bar>py_round ops x - x\<bar> \<le> 1 / 200 + u * (\<bar>x\<bar> + 1)"
  unfolding accurate_def by blast

lemma accurate_np_round:
  "accurate ops u \<Longrightarrow> \<bar>x\<bar> \<le> 10 * huge
   \<Longrightarrow> \<bar>np_round ops x - x\<bar> \<le> 1 / 200 + u * (\<bar>x\<bar> + 1)"
  unfolding accurate_def by blast

lemma accurate_exact: "accurate exact_ops 0"
  unfolding accurate_def using round2_bound by simp

section \<open>The rows of the raw dataset\<close>

lemma normalized_items_pos:
  "0 < n \<Longrightarrow>
   normalized_items ops cnts n per
     = Inr (map (\<lambda>(adp, c). (adp, PyFloat (fmul ops (fdiv ops (real c) (real n)) per))) cnts)"
  by (induction cnts) (auto simp: truediv_def)

lemma normalize_frequency_total:
  "normalize_frequency ops cnts n per =
     Inr (map (\<lambda>(adp, c). (adp, if n = 0 then PyInt 0
                               else PyFloat (fmul ops (fdiv ops (real c) (real n)) per))) cnts)"
  by (cases "n = 0") (auto simp: normalize_frequency_def normalized_items_pos)

lemma results_of_tokens_total:
  "results_of_tokens ops tokens filename auth =
     Inr \<lparr>author = auth, work = filename, total_words = length tokens,
          counts = count_adpositions tokens TARGET_ADPOSITIONS,
          per_10k =
            map (\<lambda>adp. (adp, if length tokens = 0 then 0
                             else py_round ops (fmul ops
                                    (fdiv ops (real (count_list tokens adp)) (real (length tokens)))
                                    10000)))
              TARGET_ADPOSITIONS\<rparr>"
  by (simp add: results_of_tokens_def normalize_frequency_total count_adpositions_def
        Let_def comp_def)

lemma map_of_keyed:
  "a \<in> set ks \<Longrightarrow> map_of (map (\<lambda>k. (k, g k)) ks) a = Some (g a)"
  by (induction ks) auto

lemma rate_bound:
  assumes acc: "accurate ops u" and u1: "u \<le> 1 / 2" and cn: "c \<le> n" and n: "0 < n"
    and nh: "real n \<le> huge"
  shows "\<bar>py_round ops (fmul ops (fdiv ops (real c) (real n)) 10000)
           - (real c / real n) * 10000\<bar> \<le> 1 / 200 + 100000 * u"
proof -
  define q where "q = real c / real n"
  define qh where "qh = fdiv ops (real c) (real n)"
  define ph where "ph = fmul ops qh 10000"
  from acc have u0: "0 \<le> u" by (rule accurate_nonneg)
  from cn n have q0: "0 \<le> q" and q1: "q \<le> 1" by (simp_all add: q_def)
  from n have nz: "real n \<noteq> 0" by simp
  have qlow: "1 / huge \<le> q" if "c \<noteq> 0"
  proof -
    from that have "1 \<le> real c" by simp
    with n nh have "1 / huge \<le> real c / real n" by (intro frac_le) simp_all
    then show ?thesis by (simp add: q_def)
  qed
  have qr: "in_range q"
  proof (cases "c = 0")
    case True
    then show ?thesis by (simp add: q_def in_range_def)
  next
    case False
    from qlow [OF False] q0 q1 huge_ge show ?thesis unfolding in_range_def by linarith
  qed
  have dq': "\<bar>qh - q\<bar> \<le> u * \<bar>q\<bar>"
    unfolding qh_def q_def by (rule accurate_div [OF acc nz qr [unfolded q_def]])
  from u0 q0 q1 have "u * \<bar>q\<bar> \<le> u * 1"
    by (intro mult_left_mono) simp_all
  with dq' have dq: "\<bar>qh - q\<bar> \<le> u" by simp
  with q0 q1 u1 have qh2: "\<bar>qh\<bar> \<le> 2" by linarith
  have pr: "in_range (qh * 10000)"
  proof (cases "c = 0")
    case True
    then have "q = 0" by (simp add: q_def)
    with dq' have "qh = 0" by simp
    then show ?thesis by (simp add: in_range_def)
  next
    case False
    from u1 q0 have "u * q \<le> (1 / 2) * q" by (intro mult_right_mono) simp_all
    with dq' q0 have "q / 2 \<le> qh" by linarith
    with qlow [OF False] q0 have "1 / huge \<le> qh * 10000" and "0 \<le> qh" by linarith+
    with qh2 huge_ge show ?thesis unfolding in_range_def by linarith
  qed
  have "\<bar>ph - qh * 10000\<bar> \<le> u * \<bar>qh * 10000\<bar>"
    unfolding ph_def by (rule accurate_mul [OF acc pr])
  moreover from u0 qh2 have "u * \<bar>qh * 10000\<bar> \<le> u * 20000"
    by (intro mult_left_mono) (simp_all add: abs_mult)
  ultimately have "\<bar>ph - qh * 10000\<bar> \<le> 20000 * u" by simp
  with dq have dp: "\<bar>ph - q * 10000\<bar> \<le> 30000 * u" by linarith
  with q0 q1 u1 have p4: "\<bar>ph\<bar> \<le> 40000" by linarith
  with huge_ge have pin: "\<bar>ph\<bar> \<le> 10 * huge" by linarith
  from p4 u0 have "u * (\<bar>ph\<bar> + 1) \<le> u * 40001"
    by (intro mult_left_mono) simp_all
  moreover have "\<bar>py_round ops ph - ph\<bar> \<le> 1 / 200 + u * (\<bar>ph\<bar> + 1)"
    by (rule accurate_py_round [OF acc pin])
  ultimately have "\<bar>py_round ops ph - ph\<bar> \<le> 1 / 200 + 40001 * u" by simp
  with dp u0 have "\<bar>py_round ops ph - q * 10000\<bar> \<le> 1 / 200 + 100000 * u"
    by linarith
  then show ?thesis by (simp add: ph_def qh_def q_def)
qed

text \<open>
  C1. Every file that decodes gives a row, whatever its length: no division fault. In
  that row each target adposition has its count and its rate. When the file has no
  words the rate is 0. When it has words the rate is the float quotient of the count
  by the number of words, times 10000, rounded to two decimals; in an accurate
  arithmetic, for a text of at most \<open>huge\<close> tokens, it is within half a hundredth, and
  an error of the order of the unit roundoff, of the count divided by the number of
  words, times 10000.
\<close>

theorem work_record_rates:
  assumes "content f = Some text" and "a \<in> set TARGET_ADPOSITIONS"
    and "accurate ops u" and "u \<le> 1 / 2"
    and "real (length (wt (lower text))) \<le> huge"
  shows "\<exists>r c v. process_corpus_file ops wt f auth = Inr r
           \<and> map_of (counts r) a = Some c \<and> map_of (per_10k r) a = Some v
           \<and> v = (if total_words r = 0 then 0
                  else py_round ops (fmul ops (fdiv ops (real c) (real (total_words r))) 10000))
           \<and> (if total_words r = 0 then v = 0
              else \<bar>v - (real c / real (total_words r)) * 10000\<bar> \<le> 1 / 200 + 100000 * u)"
proof -
  let ?tokens = "tokenize_text wt text"
  have "count_list ?tokens a \<le> length ?tokens" by (rule count_le_length)
  then have "0 < length ?tokens \<Longrightarrow>
      \<bar>py_round ops (fmul ops (fdiv ops (real (count_list ?tokens a)) (real (length ?tokens))) 10000)
         - (real (count_list ?tokens a) / real (length ?tokens)) * 10000\<bar> \<le> 1 / 200 + 100000 * u"
    using rate_bound [OF assms(3,4)] assms(5) by (simp add: tokenize_text_def)
  with assms(1,2) show ?thesis
    by (simp add: process_corpus_file_def read_text_file_def results_of_tokens_total
        count_adpositions_def map_of_keyed)
qed

theorem work_record_rates_witness:
  "(\<exists>r. process_corpus_file exact_ops example_tokenizer
            \<lparr>stem = ''w'', content = Some ''Past the''\<rparr> ''hemingway'' = Inr r
         \<and> total_words r = 2 \<and> map_of (counts r) ''past'' = Some 1
         \<and> map_of (per_10k r) ''past'' = Some 5000)
   \<and> (\<exists>r. process_corpus_file exact_ops example_tokenizer
            \<lparr>stem = ''e'', content = Some []\<rparr> ''hemingway'' = Inr r
         \<and> total_words r = 0 \<and> map_of (counts r) ''past'' = Some 0
         \<and> map_of (per_10k r) ''past'' = Some 0)"
  using work_record_rates [of "\<lparr>stem = ''w'', content = Some ''Past the''\<rparr>" "''Past the''"
      "''past''" exact_ops 0 example_tokenizer "''hemingway''"]
    work_record_rates [of "\<lparr>stem = ''e'', content = Some []\<rparr>" "[]"
      "''past''" exact_ops 0 example_tokenizer "''hemingway''"]
    accurate_exact huge_ge
  by (simp add: TARGET_ADPOSITIONS_def process_corpus_file_def read_text_file_def
      results_of_tokens_total tokenize_text_def example_tokenizer_def lower_def lower_char_def
      count_adpositions_def round2_def rint_def)

section \<open>The tokens that are counted\<close>

text \<open>
  C2, as the code has it. The text is lower-cased and handed to the tokenizer; the
  number of words of the row is the number of all the tokens that the tokenizer returns,
  and the count of a target adposition is the number of those tokens equal to it. The
  scripts filter nothing out of the tokenizer's list.
\<close>

theorem tokenizer_counter:
  assumes "content f = Some text"
  shows "\<exists>r. process_corpus_file ops wt f auth = Inr r
           \<and> total_words r = length (wt (lower text))
           \<and> map (\<lambda>a. map_of (counts r) a) TARGET_ADPOSITIONS
               = map (\<lambda>a. Some (length (filter (\<lambda>t. t = a) (wt (lower text)))))
                   TARGET_ADPOSITIONS"
proof -
  have eq: "count_list ts a = length (filter (\<lambda>t. t = a) ts)" for ts :: "string list" and a
    by (induction ts) auto
  show ?thesis
    using assms
    by (simp add: process_corpus_file_def read_text_file_def results_of_tokens_total
        count_adpositions_def map_of_keyed tokenize_text_def eq)
qed

theorem tokenizer_counter_witness:
  "\<exists>r. process_corpus_file exact_ops example_tokenizer
          \<lparr>stem = ''w'', content = Some ''Past him, past her.''\<rparr> ''hemingway'' = Inr r
      \<and> total_words r = 6
      \<and> map (\<lambda>a. map_of (counts r) a) TARGET_ADPOSITIONS
          = [Some 0, Some 0, Some 0, Some 2, Some 0, Some 0]"
  using tokenizer_counter [of "\<lparr>stem = ''w'', content = Some ''Past him, past her.''\<rparr>"
      "''Past him, past her.''" exact_ops example_tokenizer "''hemingway''"]
  by (simp add: example_tokenizer_def lower_def lower_char_def TARGET_ADPOSITIONS_def
      eval_nat_numeral)

text \<open>
  C2 as stated fails: the text \<open>Past him, past her.\<close> has four runs of letters, and
  the row counts six words, the comma and the full stop among them.
\<close>

theorem punctuation_counted:
  "tokenize_text example_tokenizer ''Past him, past her.''
     = [''past'', ''him'', '','', ''past'', ''her'', ''.'']
   \<and> spec_tokens ''Past him, past her.'' = [''past'', ''him'', ''past'', ''her'']
   \<and> map_sum id total_words
        (process_corpus_file exact_ops example_tokenizer
           \<lparr>stem = ''w'', content = Some ''Past him, past her.''\<rparr> ''hemingway'') = Inr 6"
  by (simp add: tokenize_text_def example_tokenizer_def lower_def lower_char_def
      spec_tokens_def is_alpha_def process_corpus_file_def read_text_file_def
      results_of_tokens_total)

section \<open>The two tables of statistics\<close>

lemma set_unique [simp]: "set (unique xs) = set xs"
  by (simp add: unique_def)

lemma adp_stats_loop_set:
  "adp_stats_loop ops df adf tgt acc = Inr st \<Longrightarrow>
   set st = set acc \<union> {(adp, adposition_stat ops adf adp) | adp.
                          adp \<in> set tgt \<and> adp \<in> set (count_columns df)}
   \<and> (\<forall>adp \<in> set tgt. adp \<in> set (count_columns df) \<longrightarrow> adp \<in> set (freq_columns df))"
proof (induction tgt arbitrary: acc)
  case Nil
  then show ?case by simp
next
  case (Cons adp rest)
  show ?case
  proof (cases "adp \<in> set (count_columns df)")
    case False
    with Cons.prems have "adp_stats_loop ops df adf rest acc = Inr st" by simp
    from Cons.IH [OF this] False show ?thesis by auto
  next
    case True
    with Cons.prems have f: "adp \<in> set (freq_columns df)"
      by (auto split: if_splits)
    with True Cons.prems
    have "adp_stats_loop ops df adf rest (acc @ [(adp, adposition_stat ops adf adp)]) = Inr st"
      by simp
    from Cons.IH [OF this] True f show ?thesis by auto
  qed
qed

lemma adp_stats_loop_defined:
  "\<forall>adp \<in> set tgt. adp \<in> set (count_columns df) \<longrightarrow> adp \<in> set (freq_columns df) \<Longrightarrow>
   \<exists>st. adp_stats_loop ops df adf tgt acc = Inr st"
  by (induction tgt arbitrary: acc) auto

lemma stats_loop_mem:
  "stats_loop ops df tgt as = Inr ss \<Longrightarrow> s \<in> set ss \<Longrightarrow>
   \<exists>a \<in> set as. author_statistics ops df tgt a = Inr s"
  by (induction as arbitrary: ss) (auto split: sum.splits)

lemma stats_loop_authors:
  "stats_loop ops df tgt as = Inr ss \<Longrightarrow> map as_author ss = as"
  by (induction as arbitrary: ss) (auto split: sum.splits simp: author_statistics_def Let_def)

lemma author_statistics_Inr:
  "author_statistics ops df tgt a = Inr s \<Longrightarrow>
   as_author s = a \<and> adp_stats_loop ops df (author_df df a) tgt [] = Inr (adp_stats s)"
  by (auto simp: author_statistics_def Let_def split: sum.splits)

lemma calculate_author_statistics_defined:
  assumes "\<forall>adp \<in> set tgt. adp \<in> set (count_columns df) \<longrightarrow> adp \<in> set (freq_columns df)"
  shows "\<exists>stats. calculate_author_statistics ops df tgt = Inr stats"
proof -
  have one: "\<exists>s. author_statistics ops df tgt a = Inr s" for a
    using adp_stats_loop_defined [OF assms, of ops "author_df df a" "[]"]
    by (auto simp: author_statistics_def Let_def)
  have "\<exists>ss. stats_loop ops df tgt as = Inr ss" for as
  proof (induction as)
    case Nil
    show ?case by simp
  next
    case (Cons a as)
    with one [of a] show ?case by auto
  qed
  then show ?thesis by (simp add: calculate_author_statistics_def)
qed

lemma summary_mem:
  "e \<in> set (create_frequency_summary ops df tgt) \<longleftrightarrow>
   (\<exists>a \<in> set (map author (rows df)). \<exists>adp \<in> set tgt. adp \<in> set (freq_columns df) \<and>
      e = \<lparr>fs_author = a, adposition = adp,
            mean_frequency = round2_opt ops (series_mean ops (freq_col (author_df df a) adp)),
            std_frequency = round2_opt ops (series_std ops (freq_col (author_df df a) adp)),
            min_frequency = round2_opt ops (series_min (freq_col (author_df df a) adp)),
            max_frequency = round2_opt ops (series_max (freq_col (author_df df a) adp))\<rparr>)"
  by (auto simp: create_frequency_summary_def summary_of_author_def Let_def split: if_splits)

lemma stats_entry_form:
  assumes "calculate_author_statistics ops df tgt = Inr stats"
    and "s \<in> set stats" and "(adp, st) \<in> set (adp_stats s)"
  shows "as_author s \<in> set (map author (rows df))
      \<and> adp \<in> set tgt \<and> adp \<in> set (freq_columns df)
      \<and> st = adposition_stat ops (author_df df (as_author s)) adp"
proof -
  have loop: "stats_loop ops df tgt (unique (map author (rows df))) = Inr stats"
    using assms(1) by (simp add: calculate_author_statistics_def)
  from stats_loop_mem [OF loop assms(2)] obtain a
    where a: "a \<in> set (map author (rows df))" and s: "author_statistics ops df tgt a = Inr s"
    by auto
  from author_statistics_Inr [OF s]
  have as: "as_author s = a"
    and l: "adp_stats_loop ops df (author_df df a) tgt [] = Inr (adp_stats s)" by auto
  from adp_stats_loop_set [OF l] assms(3) a as show ?thesis by auto
qed

lemma stats_cover:
  assumes "calculate_author_statistics ops df tgt = Inr stats"
    and "a \<in> set (map author (rows df))" and "adp \<in> set tgt"
    and "adp \<in> set (count_columns df)"
  shows "\<exists>s \<in> set stats. as_author s = a
           \<and> (adp, adposition_stat ops (author_df df a) adp) \<in> set (adp_stats s)"
proof -
  have loop: "stats_loop ops df tgt (unique (map author (rows df))) = Inr stats"
    using assms(1) by (simp add: calculate_author_statistics_def)
  from stats_loop_authors [OF loop] have "set (map as_author stats) = set (map author (rows df))"
    by simp
  with assms(2) have "a \<in> set (map as_author stats)" by simp
  then obtain s where s: "s \<in> set stats" and as: "as_author s = a"
    by (auto simp: image_iff)
  from stats_loop_mem [OF loop s] obtain a'
    where s': "author_statistics ops df tgt a' = Inr s" by auto
  from author_statistics_Inr [OF s'] as
  have l: "adp_stats_loop ops df (author_df df a) tgt [] = Inr (adp_stats s)" by auto
  from adp_stats_loop_set [OF l] assms(3,4)
  have "(adp, adposition_stat ops (author_df df a) adp) \<in> set (adp_stats s)" by auto
  with s as show ?thesis by blast
qed

text \<open>
  C3. On a raw dataset, which has the count column and the rate column of every target
  adposition, the author aggregator returns its table, with one row for each author of
  the dataset; for every author and every target adposition that row has the
  statistics of the adposition and the frequency summary has an entry, and the two hold
  the same mean and the same standard deviation (an undefined one on both sides). On
  any dataset on which the aggregator returns a table, no statistic of that table
  differs in its mean or its standard deviation from an entry of the summary for the
  same author and adposition.
\<close>

theorem summary_agrees_with_statistics:
  "(set tgt \<subseteq> set (count_columns df) \<and> set tgt \<subseteq> set (freq_columns df) \<longrightarrow>
      (\<exists>stats. calculate_author_statistics ops df tgt = Inr stats
         \<and> map as_author stats = unique (map author (rows df))
         \<and> (\<forall>a \<in> set (map author (rows df)). \<forall>adp \<in> set tgt.
              \<exists>s \<in> set stats. \<exists>st. \<exists>e \<in> set (create_frequency_summary ops df tgt).
                 as_author s = a \<and> (adp, st) \<in> set (adp_stats s)
                 \<and> fs_author e = a \<and> adposition e = adp
                 \<and> mean_frequency e = avg_per_10k st
                 \<and> std_frequency e = std_per_10k st)))
   \<and> (\<forall>stats. calculate_author_statistics ops df tgt = Inr stats \<longrightarrow>
        (\<forall>s \<in> set stats. \<forall>(adp, st) \<in> set (adp_stats s).
          \<forall>e \<in> set (create_frequency_summary ops df tgt).
            fs_author e = as_author s \<and> adposition e = adp \<longrightarrow>
              mean_frequency e = avg_per_10k st \<and> std_frequency e = std_per_10k st))"
proof (intro conjI impI allI)
  assume schema: "set tgt \<subseteq> set (count_columns df) \<and> set tgt \<subseteq> set (freq_columns df)"
  then have "\<forall>adp \<in> set tgt. adp \<in> set (count_columns df) \<longrightarrow> adp \<in> set (freq_columns df)"
    by blast
  from calculate_author_statistics_defined [OF this]
  obtain stats where calc: "calculate_author_statistics ops df tgt = Inr stats" ..
  then have loop: "stats_loop ops df tgt (unique (map author (rows df))) = Inr stats"
    by (simp add: calculate_author_statistics_def)
  have cover: "\<exists>s \<in> set stats. \<exists>st. \<exists>e \<in> set (create_frequency_summary ops df tgt).
                 as_author s = a \<and> (adp, st) \<in> set (adp_stats s)
                 \<and> fs_author e = a \<and> adposition e = adp
                 \<and> mean_frequency e = avg_per_10k st
                 \<and> std_frequency e = std_per_10k st"
    if a: "a \<in> set (map author (rows df))" and adp: "adp \<in> set tgt" for a adp
  proof -
    let ?st = "adposition_stat ops (author_df df a) adp"
    let ?e = "\<lparr>fs_author = a, adposition = adp,
            mean_frequency = round2_opt ops (series_mean ops (freq_col (author_df df a) adp)),
            std_frequency = round2_opt ops (series_std ops (freq_col (author_df df a) adp)),
            min_frequency = round2_opt ops (series_min (freq_col (author_df df a) adp)),
            max_frequency = round2_opt ops (series_max (freq_col (author_df df a) adp))\<rparr>"
    from schema adp have c: "adp \<in> set (count_columns df)" and f: "adp \<in> set (freq_columns df)"
      by blast+
    from stats_cover [OF calc a adp c] obtain s
      where s: "s \<in> set stats" "as_author s = a" "(adp, ?st) \<in> set (adp_stats s)" by blast
    from a adp f have e: "?e \<in> set (create_frequency_summary ops df tgt)"
      unfolding summary_mem by blast
    have "fs_author ?e = a \<and> adposition ?e = adp
        \<and> mean_frequency ?e = avg_per_10k ?st \<and> std_frequency ?e = std_per_10k ?st"
      by (simp add: adposition_stat_def)
    with s e show ?thesis by blast
  qed
  from calc stats_loop_authors [OF loop] cover
  show "\<exists>stats. calculate_author_statistics ops df tgt = Inr stats
         \<and> map as_author stats = unique (map author (rows df))
         \<and> (\<forall>a \<in> set (map author (rows df)). \<forall>adp \<in> set tgt.
              \<exists>s \<in> set stats. \<exists>st. \<exists>e \<in> set (create_frequency_summary ops df tgt).
                 as_author s = a \<and> (adp, st) \<in> set (adp_stats s)
                 \<and> fs_author e = a \<and> adposition e = adp
                 \<and> mean_frequency e = avg_per_10k st
                 \<and> std_frequency e = std_per_10k st)"
    by blast
next
  fix stats
  assume calc: "calculate_author_statistics ops df tgt = Inr stats"
  have B: "mean_frequency e = avg_per_10k st \<and> std_frequency e = std_per_10k st"
    if "s \<in> set stats" and "(adp, st) \<in> set (adp_stats s)"
      and "e \<in> set (create_frequency_summary ops df tgt)"
      and "fs_author e = as_author s" and "adposition e = adp" for s adp st e
    using stats_entry_form [OF calc that(1,2)] that(3-5) unfolding summary_mem
    by (auto simp: adposition_stat_def)
  then show "\<forall>s \<in> set stats. \<forall>(adp, st) \<in> set (adp_stats s).
          \<forall>e \<in> set (create_frequency_summary ops df tgt).
            fs_author e = as_author s \<and> adposition e = adp \<longrightarrow>
              mean_frequency e = avg_per_10k st \<and> std_frequency e = std_per_10k st"
    by blast
qed

theorem summary_agrees_with_statistics_witness:
  "let df = \<lparr>count_columns = [''across'', ''past''], freq_columns = [''across'', ''past''],
      rows = [\<lparr>author = ''hemingway'', work = ''a'', total_words = 10000,
                counts = [(''across'', 0), (''past'', 1)],
                per_10k = [(''across'', 0), (''past'', 1)]\<rparr>,
              \<lparr>author = ''hemingway'', work = ''b'', total_words = 10000,
                counts = [(''across'', 2), (''past'', 1)],
                per_10k = [(''across'', 2), (''past'', 1)]\<rparr>,
              \<lparr>author = ''hemingway'', work = ''c'', total_words = 10000,
                counts = [(''across'', 4), (''past'', 1)],
                per_10k = [(''across'', 4), (''past'', 1)]\<rparr>,
              \<lparr>author = ''John Dos Passos'', work = ''1919'', total_words = 10000,
                counts = [(''across'', 5), (''past'', 7)],
                per_10k = [(''across'', 5), (''past'', 7)]\<rparr>]\<rparr>
   in calculate_author_statistics exact_ops df [''across'', ''past'']
       = Inr [\<lparr>as_author = ''hemingway'', num_works = 3, as_total_words = 30000,
               avg_words_per_work = Some 10000,
               adp_stats = [(''across'', \<lparr>total_count = 6, avg_per_10k = Some 2,
                                           std_per_10k = Some 2\<rparr>),
                            (''past'', \<lparr>total_count = 3, avg_per_10k = Some 1,
                                         std_per_10k = Some 0\<rparr>)]\<rparr>,
              \<lparr>as_author = ''John Dos Passos'', num_works = 1, as_total_words = 10000,
               avg_words_per_work = Some 10000,
               adp_stats = [(''across'', \<lparr>total_count = 5, avg_per_10k = Some 5,
                                           std_per_10k = None\<rparr>),
                            (''past'', \<lparr>total_count = 7, avg_per_10k = Some 7,
                                         std_per_10k = None\<rparr>)]\<rparr>]
     \<and> (\<exists>e \<in> set (create_frequency_summary exact_ops df [''across'', ''past'']).
          fs_author e = ''hemingway'' \<and> adposition e = ''across''
          \<and> mean_frequency e = Some 2 \<and> std_frequency e = Some 2)
     \<and> (\<exists>e \<in> set (create_frequency_summary exact_ops df [''across'', ''past'']).
          fs_author e = ''John Dos Passos'' \<and> adposition e = ''past''
          \<and> mean_frequency e = Some 7 \<and> std_frequency e = None)"
proof -
  define df where "df = \<lparr>count_columns = [''across'', ''past''], freq_columns = [''across'', ''past''],
      rows = [\<lparr>author = ''hemingway'', work = ''a'', total_words = 10000,
                counts = [(''across'', 0), (''past'', 1::nat)],
                per_10k = [(''across'', 0), (''past'', 1::real)]\<rparr>,
              \<lparr>author = ''hemingway'', work = ''b'', total_words = 10000,
                counts = [(''across'', 2), (''past'', 1)],
                per_10k = [(''across'', 2), (''past'', 1)]\<rparr>,
              \<lparr>author = ''hemingway'', work = ''c'', total_words = 10000,
                counts = [(''across'', 4), (''past'', 1)],
                per_10k = [(''across'', 4), (''past'', 1)]\<rparr>,
              \<lparr>author = ''John Dos Passos'', work = ''1919'', total_words = 10000,
                counts = [(''across'', 5), (''past'', 7)],
                per_10k = [(''across'', 5), (''past'', 7)]\<rparr>]\<rparr>"
  define stats where "stats = [\<lparr>as_author = ''hemingway'', num_works = 3, as_total_words = 30000,
               avg_words_per_work = Some 10000,
               adp_stats = [(''across'', \<lparr>total_count = 6, avg_per_10k = Some 2,
                                           std_per_10k = Some 2\<rparr>),
                            (''past'', \<lparr>total_count = 3, avg_per_10k = Some 1,
                                         std_per_10k = Some 0\<rparr>)]\<rparr>,
              \<lparr>as_author = ''John Dos Passos'', num_works = 1, as_total_words = 10000,
               avg_words_per_work = Some 10000,
               adp_stats = [(''across'', \<lparr>total_count = 5, avg_per_10k = Some 5,
                                           std_per_10k = None\<rparr>),
                            (''past'', \<lparr>total_count = 7, avg_per_10k = Some 7,
                                         std_per_10k = None\<rparr>)]\<rparr>]"
  have calc: "calculate_author_statistics exact_ops df [''across'', ''past''] = Inr stats"
    by (simp add: df_def stats_def calculate_author_statistics_def unique_def
        author_statistics_def author_df_def adposition_stat_def count_col_def freq_col_def
        series_sum_def series_mean_def series_std_def round2_opt_def fstd_exact Let_def
        power2_eq_square)
  have schema: "set [''across'', ''past''] \<subseteq> set (count_columns df)
      \<and> set [''across'', ''past''] \<subseteq> set (freq_columns df)"
    by (simp add: df_def)
  from summary_agrees_with_statistics [of "[''across'', ''past'']" df exact_ops] schema calc
  have cover: "\<forall>a \<in> set (map author (rows df)). \<forall>adp \<in> set [''across'', ''past''].
              \<exists>s \<in> set stats. \<exists>st.
                \<exists>e \<in> set (create_frequency_summary exact_ops df [''across'', ''past'']).
                 as_author s = a \<and> (adp, st) \<in> set (adp_stats s)
                 \<and> fs_author e = a \<and> adposition e = adp
                 \<and> mean_frequency e = avg_per_10k st
                 \<and> std_frequency e = std_per_10k st"
    by auto
  have h: "''hemingway'' \<in> set (map author (rows df))"
    and d: "''John Dos Passos'' \<in> set (map author (rows df))"
    by (simp_all add: df_def)
  from cover [rule_format, OF h, of "''across''"]
  have A: "\<exists>e \<in> set (create_frequency_summary exact_ops df [''across'', ''past'']).
          fs_author e = ''hemingway'' \<and> adposition e = ''across''
          \<and> mean_frequency e = Some 2 \<and> std_frequency e = Some 2"
    by (auto simp: stats_def)
  from cover [rule_format, OF d, of "''past''"]
  have B: "\<exists>e \<in> set (create_frequency_summary exact_ops df [''across'', ''past'']).
          fs_author e = ''John Dos Passos'' \<and> adposition e = ''past''
          \<and> mean_frequency e = Some 7 \<and> std_frequency e = None"
    by (auto simp: stats_def)
  from calc A B show ?thesis
    unfolding Let_def df_def [symmetric] stats_def [symmetric] by blast
qed

section \<open>The comparison matrix\<close>

lemma find_distinct_key:
  "distinct (map k xs) \<Longrightarrow> e \<in> set xs \<Longrightarrow> find (\<lambda>e'. k e' = k e) xs = Some e"
proof (induction xs)
  case Nil
  then show ?case by simp
next
  case (Cons x xs)
  show ?case
  proof (cases "k x = k e")
    case True
    with Cons.prems have "x = e" by (auto simp: image_iff)
    with True show ?thesis by simp
  next
    case False
    with Cons show ?thesis by auto
  qed
qed

lemma pivot_cell_entry:
  assumes "distinct (map (\<lambda>e. (fs_author e, adposition e)) s)" and "e \<in> set s"
  shows "pivot_cell s (fs_author e) (adposition e) = mean_frequency e"
proof -
  have "(\<lambda>e'. fs_author e' = fs_author e \<and> adposition e' = adposition e)
      = (\<lambda>e'. (fs_author e', adposition e') = (fs_author e, adposition e))"
    by auto
  with find_distinct_key [OF assms(1) assms(2)] show ?thesis
    by (simp add: pivot_cell_def)
qed

text \<open>
  C9. On a summary in which two rows have the same author and adposition the matrix
  builder fails with the \<open>ValueError\<close> of the pivot. On any other summary it
  returns the matrix whose rows are the authors of the summary, whose columns are its
  adpositions, and whose cell for each row of the summary is that row's mean frequency.
\<close>

theorem pivot_lossless_or_error:
  "(if distinct (map (\<lambda>e. (fs_author e, adposition e)) s)
    then \<exists>m. create_comparison_matrix s = Inr m
           \<and> set (index m) = fs_author ` set s \<and> distinct (index m)
           \<and> set (columns m) = adposition ` set s \<and> distinct (columns m)
           \<and> (\<forall>e \<in> set s. cell m (fs_author e) (adposition e) = mean_frequency e)
    else create_comparison_matrix s = Inl ValueError)"
  by (simp add: create_comparison_matrix_def pivot_cell_entry)

theorem pivot_lossless_or_error_witness:
  "create_comparison_matrix
     [\<lparr>fs_author = ''alpha'', adposition = ''past'', mean_frequency = Some 1,
       std_frequency = None, min_frequency = Some 1, max_frequency = Some 1\<rparr>,
      \<lparr>fs_author = ''alpha'', adposition = ''past'', mean_frequency = Some 3,
       std_frequency = None, min_frequency = Some 3, max_frequency = Some 3\<rparr>]
     = Inl ValueError
   \<and> (\<exists>m. create_comparison_matrix
     [\<lparr>fs_author = ''alpha'', adposition = ''past'', mean_frequency = Some 1,
       std_frequency = None, min_frequency = Some 1, max_frequency = Some 1\<rparr>,
      \<lparr>fs_author = ''beta'', adposition = ''past'', mean_frequency = Some 3,
       std_frequency = None, min_frequency = Some 3, max_frequency = Some 3\<rparr>] = Inr m
      \<and> cell m ''alpha'' ''past'' = Some 1 \<and> cell m ''beta'' ''past'' = Some 3)"
  using pivot_lossless_or_error [of
     "[\<lparr>fs_author = ''alpha'', adposition = ''past'', mean_frequency = Some 1,
       std_frequency = None, min_frequency = Some 1, max_frequency = Some 1\<rparr>,
      \<lparr>fs_author = ''alpha'', adposition = ''past'', mean_frequency = Some 3,
       std_frequency = None, min_frequency = Some 3, max_frequency = Some 3\<rparr>]"]
    pivot_lossless_or_error [of
     "[\<lparr>fs_author = ''alpha'', adposition = ''past'', mean_frequency = Some 1,
       std_frequency = None, min_frequency = Some 1, max_frequency = Some 1\<rparr>,
      \<lparr>fs_author = ''beta'', adposition = ''past'', mean_frequency = Some 3,
       std_frequency = None, min_frequency = Some 3, max_frequency = Some 3\<rparr>]"]
  by auto

section \<open>The comparison with Hemingway\<close>

lemma in_concat_map:
  "x \<in> set (f a) \<Longrightarrow> a \<in> set as \<Longrightarrow> x \<in> set (concat (map f as))"
  by auto

lemma baseline_entry_keys [simp]:
  "bc_author (baseline_entry_of ops m a adp) = a"
  "bc_adposition (baseline_entry_of ops m a adp) = adp"
  by (simp_all add: baseline_entry_of_def Let_def)

lemma map_keys_product:
  "map (\<lambda>e. (bc_author e, bc_adposition e))
     (concat (map (\<lambda>a. map (baseline_entry_of ops m a) cols) as)) = List.product as cols"
  by (induction as) (simp_all add: comp_def)

text \<open>
  C8, as the code has it. The baseline is the row named \<open>hemingway\<close>, a constant
  of the function. On a matrix with that row the comparison has one entry for each pair
  of another author and an adposition, authors in the order of the rows and adpositions
  in the order of the columns; on a matrix without it there is no comparison.
\<close>

theorem baseline_is_hemingway:
  "(if ''hemingway'' \<in> set (index m)
    then \<exists>es. compare_to_hemingway ops m = Some es
           \<and> map (\<lambda>e. (bc_author e, bc_adposition e)) es
               = List.product (filter (\<lambda>a. a \<noteq> ''hemingway'') (index m)) (columns m)
    else compare_to_hemingway ops m = None)"
  by (simp add: compare_to_hemingway_def map_keys_product)

theorem baseline_is_hemingway_witness:
  "(\<exists>es. compare_to_hemingway exact_ops
       \<lparr>index = [''alpha'', ''hemingway''], columns = [''across'', ''past''],
        cell = (\<lambda>a adp. if a = ''hemingway'' then Some 3 else Some 1)\<rparr> = Some es
     \<and> map (\<lambda>e. (bc_author e, bc_adposition e)) es
         = [(''alpha'', ''across''), (''alpha'', ''past'')])"
  using baseline_is_hemingway [of
       "\<lparr>index = [''alpha'', ''hemingway''], columns = [''across'', ''past''],
        cell = (\<lambda>a adp. if a = ''hemingway'' then Some 3 else Some 1)\<rparr>" exact_ops]
  by simp

text \<open>
  C8 as stated fails: the matrix below has the rows \<open>alpha\<close> and \<open>beta\<close>; no
  argument of the function names \<open>alpha\<close> as the baseline, and the function gives
  no comparison at all.
\<close>

theorem other_baseline_refused:
  "''alpha'' \<in> set (index \<lparr>index = [''alpha'', ''beta''], columns = [''across''],
        cell = (\<lambda>a adp. if a = ''alpha'' then Some 3 else Some 1)\<rparr>)
   \<and> compare_to_hemingway exact_ops
       \<lparr>index = [''alpha'', ''beta''], columns = [''across''],
        cell = (\<lambda>a adp. if a = ''alpha'' then Some 3 else Some 1)\<rparr> = None"
  by (simp add: compare_to_hemingway_def)

lemma entries_of_compare:
  assumes "compare_to_hemingway ops m = Some es" and "e \<in> set es"
  shows "bc_author e \<in> set (index m) \<and> bc_author e \<noteq> ''hemingway''
   \<and> bc_adposition e \<in> set (columns m)
   \<and> e = baseline_entry_of ops m (bc_author e) (bc_adposition e)"
proof -
  from assms obtain a adp where "a \<in> set (index m)" "a \<noteq> ''hemingway''"
    "adp \<in> set (columns m)" "e = baseline_entry_of ops m a adp"
    by (auto simp: compare_to_hemingway_def split: if_splits)
  then show ?thesis by simp
qed

lemma np_round_bound:
  assumes acc: "accurate ops u" and u1: "u \<le> 1" and tr: "\<bar>t\<bar> \<le> huge"
    and zt: "\<bar>z - t\<bar> \<le> u * \<bar>t\<bar>"
  shows "\<bar>np_round ops z - t\<bar> \<le> 1 / 200 + u * (3 * \<bar>t\<bar> + 1)"
proof -
  from acc have u0: "0 \<le> u" by (rule accurate_nonneg)
  from u0 u1 have "u * \<bar>t\<bar> \<le> 1 * \<bar>t\<bar>" by (intro mult_right_mono) simp_all
  with zt have z2: "\<bar>z\<bar> \<le> 2 * \<bar>t\<bar>" by linarith
  with tr huge_ge have zin: "\<bar>z\<bar> \<le> 10 * huge" by linarith
  from z2 u0 have "u * (\<bar>z\<bar> + 1) \<le> u * (2 * \<bar>t\<bar> + 1)"
    by (intro mult_left_mono) simp_all
  moreover have "\<bar>np_round ops z - z\<bar> \<le> 1 / 200 + u * (\<bar>z\<bar> + 1)"
    by (rule accurate_np_round [OF acc zin])
  moreover have "u * (3 * \<bar>t\<bar> + 1) = u * \<bar>t\<bar> + u * (2 * \<bar>t\<bar> + 1)"
    by (simp add: algebra_simps)
  ultimately show ?thesis using zt by linarith
qed

text \<open>
  C5, as the code has it. For another author and an adposition whose two cells hold
  numbers, the comparison has exactly one entry. Its difference is the float difference
  of the author's rate and the baseline rate, rounded to two decimals; its ratio is the
  float quotient of the two rates rounded to two decimals when the baseline rate is
  positive, and infinity otherwise. In an accurate arithmetic the stored difference and
  ratio are within half a hundredth, and an error of the order of the unit roundoff, of
  the difference and of the quotient of the two rates, where these are in range. The
  function has no failing branch.
\<close>

theorem baseline_difference_and_ratio:
  assumes "''hemingway'' \<in> set (index m)" and "a \<in> set (index m)" and "a \<noteq> ''hemingway''"
    and "adp \<in> set (columns m)"
    and "cell m a adp = Some x" and "cell m ''hemingway'' adp = Some h"
    and "accurate ops u" and "u \<le> 1"
  shows "\<exists>es e. compare_to_hemingway ops m = Some es \<and> e \<in> set es
    \<and> bc_author e = a \<and> bc_adposition e = adp
    \<and> (\<forall>e' \<in> set es. bc_author e' = a \<and> bc_adposition e' = adp \<longrightarrow> e' = e)
    \<and> difference e = Some (np_round ops (fsub ops x h))
    \<and> (in_range (x - h) \<longrightarrow>
          \<bar>np_round ops (fsub ops x h) - (x - h)\<bar> \<le> 1 / 200 + u * (3 * \<bar>x - h\<bar> + 1))
    \<and> ratio e = (if 0 < h then Fin (np_round ops (fdiv ops x h)) else PInf)
    \<and> (0 < h \<and> in_range (x / h) \<longrightarrow>
          \<bar>np_round ops (fdiv ops x h) - x / h\<bar> \<le> 1 / 200 + u * (3 * \<bar>x / h\<bar> + 1))"
proof -
  let ?e = "baseline_entry_of ops m a adp"
  from assms(1) obtain es where es: "compare_to_hemingway ops m = Some es"
    by (simp add: compare_to_hemingway_def)
  with assms(1) have es_eq: "es = concat (map (\<lambda>a. map (baseline_entry_of ops m a) (columns m))
       (filter (\<lambda>a. a \<noteq> ''hemingway'') (index m)))"
    by (simp add: compare_to_hemingway_def)
  have "?e \<in> set (map (baseline_entry_of ops m a) (columns m))"
    using assms(4) by simp
  moreover have "a \<in> set (filter (\<lambda>a. a \<noteq> ''hemingway'') (index m))"
    using assms(2,3) by simp
  ultimately have mem: "?e \<in> set es"
    unfolding es_eq by (rule in_concat_map)
  have uniq: "e' = ?e" if "e' \<in> set es" and "bc_author e' = a \<and> bc_adposition e' = adp" for e'
    using entries_of_compare [OF es that(1)] that(2) by simp
  have d: "difference ?e = Some (np_round ops (fsub ops x h))"
    and r: "ratio ?e = (if 0 < h then Fin (np_round ops (fdiv ops x h)) else PInf)"
    by (simp_all add: baseline_entry_of_def assms(5,6) round2_opt_def)
  have db: "\<bar>np_round ops (fsub ops x h) - (x - h)\<bar> \<le> 1 / 200 + u * (3 * \<bar>x - h\<bar> + 1)"
    if "in_range (x - h)"
    by (rule np_round_bound [OF assms(7,8) in_range_le [OF that]
          accurate_sub [OF assms(7) that]])
  have rb: "\<bar>np_round ops (fdiv ops x h) - x / h\<bar> \<le> 1 / 200 + u * (3 * \<bar>x / h\<bar> + 1)"
    if "0 < h" and "in_range (x / h)"
  proof -
    from that(1) have "h \<noteq> 0" by simp
    from np_round_bound [OF assms(7,8) in_range_le [OF that(2)]
        accurate_div [OF assms(7) this that(2)]]
    show ?thesis .
  qed
  have u: "\<forall>e' \<in> set es. bc_author e' = a \<and> bc_adposition e' = adp \<longrightarrow> e' = ?e"
    using uniq by blast
  have k: "bc_author ?e = a" "bc_adposition ?e = adp" by simp_all
  from es mem k u d r db rb show ?thesis by blast
qed

theorem baseline_difference_and_ratio_witness:
  "(\<exists>es. compare_to_hemingway exact_ops
       \<lparr>index = [''alpha'', ''hemingway''], columns = [''across'', ''past''],
        cell = (\<lambda>a adp. if a = ''hemingway'' then (if adp = ''across'' then Some 2 else Some 0)
                          else (if adp = ''across'' then Some 3 else Some (5 / 4)))\<rparr> = Some es
     \<and> map difference es = [Some 1, Some (5 / 4)] \<and> map ratio es = [Fin (3 / 2), PInf])
   \<and> in_range (3 - 2) \<and> in_range (3 / 2) \<and> in_range (5 / 4 - 0)"
proof -
  let ?m = "\<lparr>index = [''alpha'', ''hemingway''], columns = [''across'', ''past''],
        cell = (\<lambda>a adp. if a = ''hemingway''
                          then (if adp = ''across'' then Some (2::real) else Some 0)
                          else (if adp = ''across'' then Some 3 else Some (5 / 4)))\<rparr>"
  let ?e1 = "baseline_entry_of exact_ops ?m ''alpha'' ''across''"
  let ?e2 = "baseline_entry_of exact_ops ?m ''alpha'' ''past''"
  have c: "compare_to_hemingway exact_ops ?m = Some [?e1, ?e2]"
    by (simp add: compare_to_hemingway_def)
  from baseline_difference_and_ratio [of ?m "''alpha''" "''across''" 3 2 exact_ops 0]
    accurate_exact
  obtain es e where es: "compare_to_hemingway exact_ops ?m = Some es" and e: "e \<in> set es"
    and k: "bc_adposition e = ''across''"
    and d: "difference e = Some (np_round exact_ops (fsub exact_ops 3 2))"
    and r: "ratio e = (if (0::real) < 2 then Fin (np_round exact_ops (fdiv exact_ops 3 2)) else PInf)"
    by auto
  from es c have "es = [?e1, ?e2]" by (simp only: option.inject)
  with e k have "e = ?e1" by auto
  with d r have one: "difference ?e1 = Some 1" "ratio ?e1 = Fin (3 / 2)"
    by (simp_all add: round2_def rint_def)
  from baseline_difference_and_ratio [of ?m "''alpha''" "''past''" "5 / 4" 0 exact_ops 0]
    accurate_exact
  obtain es' e' where es': "compare_to_hemingway exact_ops ?m = Some es'" and e': "e' \<in> set es'"
    and k': "bc_adposition e' = ''past''"
    and d': "difference e' = Some (np_round exact_ops (fsub exact_ops (5 / 4) 0))"
    and r': "ratio e' = (if (0::real) < 0 then Fin (np_round exact_ops (fdiv exact_ops (5 / 4) 0))
                         else PInf)"
    by auto
  from es' c have "es' = [?e1, ?e2]" by (simp only: option.inject)
  with e' k' have "e' = ?e2" by auto
  with d' r' have two: "difference ?e2 = Some (5 / 4)" "ratio ?e2 = PInf"
    by (simp_all add: round2_def rint_def)
  have "in_range (3 - 2)" and "in_range (3 / 2)" and "in_range (5 / 4 - 0)"
    by (rule in_range_mid; simp)+
  with c one two show ?thesis by simp
qed

text \<open>
  C5 as stated fails: with the baseline rate 256 and the author's rate 257 the quotient
  is 1.00390625, and the ratio of the entry is 1. Every number of this example is a
  float64 value, and so is every intermediate result.
\<close>

theorem ratio_is_rounded:
  "compare_to_hemingway exact_ops
       \<lparr>index = [''alpha'', ''hemingway''], columns = [''across''],
        cell = (\<lambda>a adp. if a = ''hemingway'' then Some 256 else Some 257)\<rparr>
     = Some [\<lparr>bc_author = ''alpha'', bc_adposition = ''across'', hemingway_freq = Some 256,
              author_freq = Some 257, difference = Some 1, ratio = Fin 1\<rparr>]
   \<and> Fin 1 \<noteq> Fin (257 / 256)"
  by (simp add: compare_to_hemingway_def baseline_entry_of_def round2_opt_def round2_def
      rint_def Let_def)

section \<open>The distinctive features\<close>

lemma feature_of_cases:
  "feature_of ops m thr a adp =
     (case (other_freq_mean ops m a adp, cell m a adp) of
        (Some om, Some af) \<Rightarrow>
          if 0 < om \<and> thr \<le> fdiv ops af om
          then [\<lparr>df_author = a, df_adposition = adp, author_frequency = np_round ops af,
                  others_mean_frequency = np_round ops om,
                  df_ratio = np_round ops (fdiv ops af om),
                  distinctive_level =
                    (if 2 \<le> fdiv ops af om then ''high'' else ''moderate'')\<rparr>]
          else []
      | _ \<Rightarrow> [])"
  by (simp add: feature_of_def Let_def split: option.splits)

lemma feature_of_mem:
  "x \<in> set (feature_of ops m thr a adp) \<longleftrightarrow>
     (\<exists>om af. other_freq_mean ops m a adp = Some om \<and> cell m a adp = Some af
        \<and> 0 < om \<and> thr \<le> fdiv ops af om
        \<and> x = \<lparr>df_author = a, df_adposition = adp, author_frequency = np_round ops af,
                  others_mean_frequency = np_round ops om,
                  df_ratio = np_round ops (fdiv ops af om),
                  distinctive_level =
                    (if 2 \<le> fdiv ops af om then ''high'' else ''moderate'')\<rparr>)"
proof (cases "other_freq_mean ops m a adp")
  case None
  then show ?thesis by (simp add: feature_of_cases)
next
  case om: (Some om)
  show ?thesis
  proof (cases "cell m a adp")
    case None
    with om show ?thesis by (simp add: feature_of_cases)
  next
    case (Some af)
    with om show ?thesis by (simp add: feature_of_cases) blast
  qed
qed

lemma identify_mem:
  "x \<in> set (identify_distinctive_features ops m thr) \<longleftrightarrow>
     (\<exists>a \<in> set (index m). \<exists>adp \<in> set (columns m). x \<in> set (feature_of ops m thr a adp))"
  by (auto simp: identify_distinctive_features_def)

lemma feature_keys:
  "x \<in> set (feature_of ops m thr a adp) \<Longrightarrow> df_author x = a \<and> df_adposition x = adp"
  by (auto simp: feature_of_mem)

lemma emitted_iff:
  "(\<exists>x \<in> set (identify_distinctive_features ops m thr).
       df_author x = a \<and> df_adposition x = adp)
   \<longleftrightarrow> a \<in> set (index m) \<and> adp \<in> set (columns m)
        \<and> (\<exists>om af. other_freq_mean ops m a adp = Some om \<and> cell m a adp = Some af
              \<and> 0 < om \<and> thr \<le> fdiv ops af om)"
  (is "?L \<longleftrightarrow> ?R")
proof
  assume ?L
  then obtain x a' adp' where x: "x \<in> set (feature_of ops m thr a' adp')"
    and a': "a' \<in> set (index m)" and adp': "adp' \<in> set (columns m)"
    and k: "df_author x = a" "df_adposition x = adp"
    by (auto simp: identify_mem)
  from feature_keys [OF x] k have "a' = a" "adp' = adp" by simp_all
  with x a' adp' show ?R unfolding feature_of_mem by blast
next
  assume r: ?R
  then obtain om af where h: "other_freq_mean ops m a adp = Some om" "cell m a adp = Some af"
    "0 < om" "thr \<le> fdiv ops af om" by blast
  let ?x = "\<lparr>df_author = a, df_adposition = adp, author_frequency = np_round ops af,
                  others_mean_frequency = np_round ops om,
                  df_ratio = np_round ops (fdiv ops af om),
                  distinctive_level =
                    (if 2 \<le> fdiv ops af om then ''high'' else ''moderate'')\<rparr>"
  from h have "?x \<in> set (feature_of ops m thr a adp)" unfolding feature_of_mem by blast
  with r have "?x \<in> set (identify_distinctive_features ops m thr)"
    unfolding identify_mem by blast
  moreover have "df_author ?x = a \<and> df_adposition ?x = adp" by simp
  ultimately show ?L by blast
qed

lemma emitted_fields:
  assumes "x \<in> set (identify_distinctive_features ops m thr)"
  shows "\<exists>om af. other_freq_mean ops m (df_author x) (df_adposition x) = Some om
           \<and> cell m (df_author x) (df_adposition x) = Some af
           \<and> 0 < om \<and> thr \<le> fdiv ops af om
           \<and> df_ratio x = np_round ops (fdiv ops af om)
           \<and> distinctive_level x = (if 2 \<le> fdiv ops af om then ''high'' else ''moderate'')"
proof -
  from assms obtain a adp where x: "x \<in> set (feature_of ops m thr a adp)"
    unfolding identify_mem by blast
  from feature_keys [OF x] have k: "df_author x = a" "df_adposition x = adp" by simp_all
  from x obtain om af where h: "other_freq_mean ops m a adp = Some om" "cell m a adp = Some af"
    "0 < om" "thr \<le> fdiv ops af om"
    and xe: "x = \<lparr>df_author = a, df_adposition = adp, author_frequency = np_round ops af,
                  others_mean_frequency = np_round ops om,
                  df_ratio = np_round ops (fdiv ops af om),
                  distinctive_level =
                    (if 2 \<le> fdiv ops af om then ''high'' else ''moderate'')\<rparr>"
    unfolding feature_of_mem by blast
  from xe have "df_ratio x = np_round ops (fdiv ops af om)"
    and "distinctive_level x = (if 2 \<le> fdiv ops af om then ''high'' else ''moderate'')"
    by simp_all
  with h k show ?thesis by blast
qed

lemma dropna_mem: "v \<in> set (dropna xs) \<longleftrightarrow> Some v \<in> set xs"
  by (induction xs rule: dropna.induct) auto

lemma dropna_map_Some [simp]: "dropna (map Some vs) = vs"
  by (induction vs) auto

lemma other_freq_mean_nonneg:
  assumes "\<forall>other adp v. cell m other adp = Some v \<longrightarrow> 0 \<le> v"
    and "\<forall>vs. (\<forall>v \<in> set vs. 0 \<le> v) \<longrightarrow> 0 \<le> fmean ops vs"
    and "other_freq_mean ops m a adp = Some om"
  shows "0 \<le> om"
proof -
  let ?xs = "map (\<lambda>other. cell m other adp) (filter (\<lambda>other. other \<noteq> a) (index m))"
  from assms(1) have "\<forall>v \<in> set (dropna ?xs). 0 \<le> v"
    by (auto simp: dropna_mem)
  with assms(2) have "0 \<le> fmean ops (dropna ?xs)" by blast
  with assms(3) show ?thesis
    by (auto simp: other_freq_mean_def series_mean_def Let_def split: if_splits)
qed

text \<open>
  C4. On a matrix of rates, which are not negative, and with a mean that is not
  negative on such values: the mean of the others is the mean of the cells of the other
  authors in the column; a cell whose mean of the others is 0 gives no feature; a cell
  whose mean of the others is not 0 gives a feature exactly when the float quotient of
  its rate by that mean reaches the threshold; and the level of a feature is
  \<open>high\<close> when that quotient reaches 2, \<open>moderate\<close> otherwise.
\<close>

theorem distinctive_feature_detector:
  assumes nonneg: "\<forall>other p v. cell m other p = Some v \<longrightarrow> 0 \<le> v"
    and mean_nonneg: "\<forall>vs. (\<forall>v \<in> set vs. 0 \<le> v) \<longrightarrow> 0 \<le> fmean ops vs"
  shows "(\<forall>vs. map (\<lambda>other. cell m other adp) (filter (\<lambda>other. other \<noteq> a) (index m))
              = map Some vs \<and> vs \<noteq> []
            \<longrightarrow> other_freq_mean ops m a adp = Some (fmean ops vs))
    \<and> (other_freq_mean ops m a adp = Some 0 \<longrightarrow>
          \<not> (\<exists>x \<in> set (identify_distinctive_features ops m thr).
                 df_author x = a \<and> df_adposition x = adp))
    \<and> (a \<in> set (index m) \<and> adp \<in> set (columns m)
          \<and> other_freq_mean ops m a adp = Some om \<and> om \<noteq> 0 \<and> cell m a adp = Some af
        \<longrightarrow> ((\<exists>x \<in> set (identify_distinctive_features ops m thr).
                   df_author x = a \<and> df_adposition x = adp) \<longleftrightarrow> thr \<le> fdiv ops af om))
    \<and> (\<forall>x \<in> set (identify_distinctive_features ops m thr).
          \<exists>om' af'. other_freq_mean ops m (df_author x) (df_adposition x) = Some om'
            \<and> cell m (df_author x) (df_adposition x) = Some af'
            \<and> distinctive_level x
                = (if 2 \<le> fdiv ops af' om' then ''high'' else ''moderate''))"
proof (intro conjI)
  show "\<forall>vs. map (\<lambda>other. cell m other adp) (filter (\<lambda>other. other \<noteq> a) (index m))
              = map Some vs \<and> vs \<noteq> []
            \<longrightarrow> other_freq_mean ops m a adp = Some (fmean ops vs)"
    by (simp add: other_freq_mean_def series_mean_def)
  show "other_freq_mean ops m a adp = Some 0 \<longrightarrow>
          \<not> (\<exists>x \<in> set (identify_distinctive_features ops m thr).
                 df_author x = a \<and> df_adposition x = adp)"
    unfolding emitted_iff by simp
  show "a \<in> set (index m) \<and> adp \<in> set (columns m)
          \<and> other_freq_mean ops m a adp = Some om \<and> om \<noteq> 0 \<and> cell m a adp = Some af
        \<longrightarrow> ((\<exists>x \<in> set (identify_distinctive_features ops m thr).
                   df_author x = a \<and> df_adposition x = adp) \<longleftrightarrow> thr \<le> fdiv ops af om)"
  proof
    assume h: "a \<in> set (index m) \<and> adp \<in> set (columns m)
          \<and> other_freq_mean ops m a adp = Some om \<and> om \<noteq> 0 \<and> cell m a adp = Some af"
    with other_freq_mean_nonneg [OF nonneg mean_nonneg, of a adp om] have "0 < om" by simp
    with h show "(\<exists>x \<in> set (identify_distinctive_features ops m thr).
                   df_author x = a \<and> df_adposition x = adp) \<longleftrightarrow> thr \<le> fdiv ops af om"
      unfolding emitted_iff by simp
  qed
  show "\<forall>x \<in> set (identify_distinctive_features ops m thr).
          \<exists>om' af'. other_freq_mean ops m (df_author x) (df_adposition x) = Some om'
            \<and> cell m (df_author x) (df_adposition x) = Some af'
            \<and> distinctive_level x
                = (if 2 \<le> fdiv ops af' om' then ''high'' else ''moderate'')"
    using emitted_fields [of _ ops m thr] by blast
qed

theorem distinctive_feature_detector_witness:
  "(\<exists>x \<in> set (identify_distinctive_features exact_ops
        \<lparr>index = [''a'', ''b'', ''c''], columns = [''past''],
         cell = (\<lambda>other adp. if other = ''a'' then Some 6 else Some 2)\<rparr> (3 / 2)).
      df_author x = ''a'' \<and> df_adposition x = ''past'' \<and> distinctive_level x = ''high'')
   \<and> \<not> (\<exists>x \<in> set (identify_distinctive_features exact_ops
        \<lparr>index = [''a'', ''b'', ''c''], columns = [''past''],
         cell = (\<lambda>other adp. if other = ''a'' then Some 6 else Some 2)\<rparr> (3 / 2)).
      df_author x = ''b'' \<and> df_adposition x = ''past'')"
proof -
  let ?m = "\<lparr>index = [''a'', ''b'', ''c''], columns = [''past''],
         cell = (\<lambda>other adp. if other = ''a'' then Some (6::real) else Some 2)\<rparr>"
  have nn: "\<forall>other p v. cell ?m other p = Some v \<longrightarrow> 0 \<le> v" by simp
  have mn: "\<forall>vs. (\<forall>v \<in> set vs. 0 \<le> v) \<longrightarrow> 0 \<le> fmean exact_ops vs"
    by (simp add: sum_list_nonneg)
  have oa: "other_freq_mean exact_ops ?m ''a'' ''past'' = Some 2"
    and ob: "other_freq_mean exact_ops ?m ''b'' ''past'' = Some 4"
    by (simp_all add: other_freq_mean_def series_mean_def)
  from distinctive_feature_detector [OF nn mn, of "''past''" "''a''" "3 / 2" 2 6] oa
  have ea: "\<exists>x \<in> set (identify_distinctive_features exact_ops ?m (3 / 2)).
              df_author x = ''a'' \<and> df_adposition x = ''past''"
    and lv: "\<forall>x \<in> set (identify_distinctive_features exact_ops ?m (3 / 2)).
          \<exists>om' af'. other_freq_mean exact_ops ?m (df_author x) (df_adposition x) = Some om'
            \<and> cell ?m (df_author x) (df_adposition x) = Some af'
            \<and> distinctive_level x
                = (if 2 \<le> fdiv exact_ops af' om' then ''high'' else ''moderate'')"
    by simp_all
  from ea obtain x where x: "x \<in> set (identify_distinctive_features exact_ops ?m (3 / 2))"
    and k: "df_author x = ''a''" "df_adposition x = ''past''" by blast
  from lv x k oa have "distinctive_level x = ''high''" by auto
  with x k have A: "\<exists>x \<in> set (identify_distinctive_features exact_ops ?m (3 / 2)).
      df_author x = ''a'' \<and> df_adposition x = ''past'' \<and> distinctive_level x = ''high''"
    by blast
  from distinctive_feature_detector [OF nn mn, of "''past''" "''b''" "3 / 2" 4 2] ob
  have B: "\<not> (\<exists>x \<in> set (identify_distinctive_features exact_ops ?m (3 / 2)).
              df_author x = ''b'' \<and> df_adposition x = ''past'')"
    by simp
  from A B show ?thesis by (rule conjI)
qed

section \<open>Rounding before the comparisons\<close>

lemma process_files_rows:
  "r \<in> set (process_files ops wt an fs) \<Longrightarrow>
   \<exists>tokens fn auth. results_of_tokens ops tokens fn auth = Inr r"
proof (induction fs)
  case Nil
  then show ?case by simp
next
  case (Cons f fs)
  show ?case
  proof (cases "process_corpus_file ops wt f (actual_author an f)")
    case (Inl e)
    with Cons show ?thesis by simp
  next
    case (Inr r')
    then have "\<exists>tokens fn auth. results_of_tokens ops tokens fn auth = Inr r'"
      by (auto simp: process_corpus_file_def split: sum.splits)
    with Cons Inr show ?thesis by auto
  qed
qed

lemma all_results_rows:
  "r \<in> set (all_results ops wt hf cf) \<Longrightarrow>
   \<exists>tokens fn auth. results_of_tokens ops tokens fn auth = Inr r"
  by (auto simp: all_results_def process_author_corpus_def split: option.splits
      dest: process_files_rows)

lemma results_of_tokens_rounds:
  assumes "results_of_tokens ops tokens fn auth = Inr r" and "adp \<in> set TARGET_ADPOSITIONS"
  shows "map_of (per_10k r) adp
     = (if total_words r = 0 then Some 0
        else map_option (py_round ops) (map_of (per_10k (unrounded_row ops r)) adp))"
proof -
  from assms(1) have r: "r = \<lparr>author = auth, work = fn, total_words = length tokens,
          counts = count_adpositions tokens TARGET_ADPOSITIONS,
          per_10k =
            map (\<lambda>adp. (adp, if length tokens = 0 then 0
                             else py_round ops (fmul ops
                                    (fdiv ops (real (count_list tokens adp)) (real (length tokens)))
                                    10000)))
              TARGET_ADPOSITIONS\<rparr>"
    by (simp add: results_of_tokens_total)
  have u: "per_10k (unrounded_row ops r)
      = map (\<lambda>adp. (adp, if length tokens = 0 then 0
                         else fmul ops (fdiv ops (real (count_list tokens adp))
                                (real (length tokens))) 10000)) TARGET_ADPOSITIONS"
    by (subst r) (simp add: unrounded_row_def count_adpositions_def comp_def)
  have p: "per_10k r
      = map (\<lambda>adp. (adp, if length tokens = 0 then 0
                             else py_round ops (fmul ops
                                    (fdiv ops (real (count_list tokens adp)) (real (length tokens)))
                                    10000))) TARGET_ADPOSITIONS"
    and t: "total_words r = length tokens"
    by (subst r, simp)+
  show ?thesis
    unfolding u p t using assms(2) by (simp add: map_of_keyed)
qed

lemma matrix_cell_of_summary:
  assumes "create_comparison_matrix s = Inr m" and "e \<in> set s"
  shows "cell m (fs_author e) (adposition e) = mean_frequency e"
proof -
  from assms(1) have d: "distinct (map (\<lambda>e. (fs_author e, adposition e)) s)"
    and c: "cell m = pivot_cell s"
    by (auto simp: create_comparison_matrix_def split: if_splits)
  from pivot_cell_entry [OF d assms(2)] c show ?thesis by simp
qed

lemma column_ranking_mset:
  "mset (column_ranking m adp) = mset (map (\<lambda>a. (a, cell m a adp)) (index m))"
  by (simp add: column_ranking_def Let_def case_prod_unfold)

lemma map_snd_present:
  "\<forall>p \<in> set ps. snd p \<noteq> None \<Longrightarrow> map snd ps = map Some (map (\<lambda>p. the (snd p)) ps)"
  by (induction ps) auto

lemma map_snd_missing:
  "\<forall>p \<in> set ns. snd p = None \<Longrightarrow> map snd ns = replicate (length ns) None"
  by (induction ns) auto

lemma column_ranking_sorted:
  "\<exists>ds k. map snd (column_ranking m adp) = map Some ds @ replicate k None
          \<and> sorted_wrt (\<lambda>x y. y \<le> x) ds"
proof -
  let ?col = "map (\<lambda>a. (a, cell m a adp)) (index m)"
  let ?ps = "sort_key (\<lambda>p. - the (snd p)) (filter (\<lambda>p. snd p \<noteq> None) ?col)"
  let ?ns = "filter (\<lambda>p. snd p = None) ?col"
  let ?ds = "map (\<lambda>p. the (snd p)) ?ps"
  have r: "column_ranking m adp = ?ps @ ?ns"
    by (simp add: column_ranking_def Let_def case_prod_unfold)
  have "\<forall>p \<in> set ?ps. snd p \<noteq> None" by simp
  then have a: "map snd ?ps = map Some ?ds" by (rule map_snd_present)
  have "\<forall>p \<in> set ?ns. snd p = None" by simp
  then have b: "map snd ?ns = replicate (length ?ns) None" by (rule map_snd_missing)
  have "sorted (map (\<lambda>p. - the (snd p)) ?ps)" by (rule sorted_sort_key)
  then have c: "sorted_wrt (\<lambda>x y. y \<le> x) ?ds"
    by (simp add: sorted_wrt_map)
  have "map snd (column_ranking m adp) = map Some ?ds @ replicate (length ?ns) None"
    unfolding r map_append a b ..
  with c show ?thesis by blast
qed


text \<open>
  C7, as the code has it. The rate of a row of the raw dataset is the float rate
  computed from its count and its number of words, rounded to two decimals. A cell of
  the comparison matrix is the mean of these rounded rates over the works of the
  author, rounded to two decimals again. The detector divides a cell by the mean of the
  cells of the other authors in its column and compares that quotient with the
  threshold as it is: the quotient is rounded only in the feature that is stored. The
  ranking of a column is a rearrangement of the cells of that column, the numbers in
  descending order and the NaN cells last: what it sorts are the rounded cells.
\<close>

theorem comparisons_on_rounded_values:
  assumes "corpus_matrix ops (all_results ops wt hf cf) = Inr m"
  shows "(\<forall>r \<in> set (all_results ops wt hf cf). \<forall>adp \<in> set TARGET_ADPOSITIONS.
            map_of (per_10k r) adp
              = (if total_words r = 0 then Some 0
                 else map_option (py_round ops) (map_of (per_10k (unrounded_row ops r)) adp)))
    \<and> (\<forall>r \<in> set (all_results ops wt hf cf). \<forall>adp \<in> set TARGET_ADPOSITIONS.
          cell m (author r) adp
            = map_option (np_round ops) (series_mean ops (freq_col
                (filter (\<lambda>r'. author r' = author r) (all_results ops wt hf cf)) adp)))
    \<and> ((\<exists>x \<in> set (identify_distinctive_features ops m thr).
            df_author x = a \<and> df_adposition x = adp)
        \<longleftrightarrow> a \<in> set (index m) \<and> adp \<in> set (columns m)
            \<and> (\<exists>om af. other_freq_mean ops m a adp = Some om \<and> cell m a adp = Some af
                  \<and> 0 < om \<and> thr \<le> fdiv ops af om))
    \<and> (\<forall>x \<in> set (identify_distinctive_features ops m thr).
          \<exists>om af. other_freq_mean ops m (df_author x) (df_adposition x) = Some om
            \<and> cell m (df_author x) (df_adposition x) = Some af
            \<and> df_ratio x = np_round ops (fdiv ops af om))
    \<and> (\<forall>adp \<in> set (columns m).
          \<exists>rk. map_of (calculate_author_rankings m) adp = Some rk
            \<and> mset rk = mset (map (\<lambda>a. (a, cell m a adp)) (index m))
            \<and> (\<exists>ds k. map snd rk = map Some ds @ replicate k None
                  \<and> sorted_wrt (\<lambda>x y. y \<le> x) ds))"
proof (intro conjI ballI)
  fix r adp
  assume "r \<in> set (all_results ops wt hf cf)" and adp: "adp \<in> set TARGET_ADPOSITIONS"
  from all_results_rows [OF this(1)] obtain tokens fn auth
    where "results_of_tokens ops tokens fn auth = Inr r" by blast
  from results_of_tokens_rounds [OF this adp] show
    "map_of (per_10k r) adp
       = (if total_words r = 0 then Some 0
          else map_option (py_round ops) (map_of (per_10k (unrounded_row ops r)) adp))" .
next
  fix r adp assume r: "r \<in> set (all_results ops wt hf cf)"
    and adp: "adp \<in> set TARGET_ADPOSITIONS"
  let ?df = "to_dataframe (all_results ops wt hf cf)"
  let ?e = "\<lparr>fs_author = author r, adposition = adp,
      mean_frequency = round2_opt ops (series_mean ops (freq_col (author_df ?df (author r)) adp)),
      std_frequency = round2_opt ops (series_std ops (freq_col (author_df ?df (author r)) adp)),
      min_frequency = round2_opt ops (series_min (freq_col (author_df ?df (author r)) adp)),
      max_frequency = round2_opt ops (series_max (freq_col (author_df ?df (author r)) adp))\<rparr>"
  from r adp have "?e \<in> set (create_frequency_summary ops ?df TARGET_ADPOSITIONS)"
    unfolding summary_mem by (auto simp: to_dataframe_def)
  from matrix_cell_of_summary [OF assms [unfolded corpus_matrix_def] this]
  show "cell m (author r) adp
            = map_option (np_round ops) (series_mean ops (freq_col
                (filter (\<lambda>r'. author r' = author r) (all_results ops wt hf cf)) adp))"
    by (simp add: author_df_def to_dataframe_def round2_opt_def)
next
  show "(\<exists>x \<in> set (identify_distinctive_features ops m thr).
            df_author x = a \<and> df_adposition x = adp)
        \<longleftrightarrow> a \<in> set (index m) \<and> adp \<in> set (columns m)
            \<and> (\<exists>om af. other_freq_mean ops m a adp = Some om \<and> cell m a adp = Some af
                  \<and> 0 < om \<and> thr \<le> fdiv ops af om)"
    by (rule emitted_iff)
next
  fix x assume "x \<in> set (identify_distinctive_features ops m thr)"
  from emitted_fields [OF this] show
    "\<exists>om af. other_freq_mean ops m (df_author x) (df_adposition x) = Some om
            \<and> cell m (df_author x) (df_adposition x) = Some af
            \<and> df_ratio x = np_round ops (fdiv ops af om)"
    by blast
next
  fix adp assume "adp \<in> set (columns m)"
  then have "map_of (calculate_author_rankings m) adp = Some (column_ranking m adp)"
    unfolding calculate_author_rankings_def by (rule map_of_keyed)
  with column_ranking_mset [of m adp] column_ranking_sorted [of m adp]
  show "\<exists>rk. map_of (calculate_author_rankings m) adp = Some rk
            \<and> mset rk = mset (map (\<lambda>a. (a, cell m a adp)) (index m))
            \<and> (\<exists>ds k. map snd rk = map Some ds @ replicate k None
                  \<and> sorted_wrt (\<lambda>x y. y \<le> x) ds)"
    by blast
qed

lemma example_rows:
  "all_results exact_ops example_tokenizer
     (Some [\<lparr>stem = ''a'', content = Some ''Across the''\<rparr>])
     (Some [\<lparr>stem = ''1919'', content = Some ''Across the the the''\<rparr>])
   = [\<lparr>author = ''hemingway'', work = ''a'', total_words = 2,
        counts = [(''across'', 1), (''through'', 0), (''along'', 0), (''past'', 0),
                  (''around'', 0), (''beyond'', 0)],
        per_10k = [(''across'', 5000), (''through'', 0), (''along'', 0), (''past'', 0),
                  (''around'', 0), (''beyond'', 0)]\<rparr>,
      \<lparr>author = ''John Dos Passos'', work = ''1919'', total_words = 4,
        counts = [(''across'', 1), (''through'', 0), (''along'', 0), (''past'', 0),
                  (''around'', 0), (''beyond'', 0)],
        per_10k = [(''across'', 2500), (''through'', 0), (''along'', 0), (''past'', 0),
                  (''around'', 0), (''beyond'', 0)]\<rparr>]"
  by (simp add: all_results_def process_author_corpus_def actual_author_def
      get_author_from_filename_def author_mapping_def
      process_corpus_file_def read_text_file_def results_of_tokens_total tokenize_text_def
      example_tokenizer_def lower_def lower_char_def count_adpositions_def
      TARGET_ADPOSITIONS_def round2_def rint_def Let_def)

theorem comparisons_on_rounded_values_witness:
  "\<exists>m. corpus_matrix exact_ops (all_results exact_ops example_tokenizer
          (Some [\<lparr>stem = ''a'', content = Some ''Across the''\<rparr>])
          (Some [\<lparr>stem = ''1919'', content = Some ''Across the the the''\<rparr>])) = Inr m
       \<and> cell m ''John Dos Passos'' ''across'' = Some 2500"
proof -
  let ?R = "all_results exact_ops example_tokenizer
          (Some [\<lparr>stem = ''a'', content = Some ''Across the''\<rparr>])
          (Some [\<lparr>stem = ''1919'', content = Some ''Across the the the''\<rparr>])"
  let ?r = "\<lparr>author = ''John Dos Passos'', work = ''1919'', total_words = 4,
        counts = [(''across'', 1), (''through'', 0), (''along'', 0), (''past'', 0),
                  (''around'', 0), (''beyond'', 0)],
        per_10k = [(''across'', 2500), (''through'', 0), (''along'', 0), (''past'', 0),
                  (''around'', 0), (''beyond'', 0)]\<rparr>"
  have "\<exists>m. corpus_matrix exact_ops ?R = Inr m"
    unfolding example_rows
    by (simp add: corpus_matrix_def create_comparison_matrix_def create_frequency_summary_def
        summary_of_author_def to_dataframe_def TARGET_ADPOSITIONS_def unique_def Let_def)
  then obtain m where m: "corpus_matrix exact_ops ?R = Inr m" ..
  have r: "?r \<in> set ?R" unfolding example_rows by simp
  have t: "''across'' \<in> set TARGET_ADPOSITIONS" by (simp add: TARGET_ADPOSITIONS_def)
  from comparisons_on_rounded_values [OF m]
  have "\<forall>r \<in> set ?R. \<forall>adp \<in> set TARGET_ADPOSITIONS.
          cell m (author r) adp
            = map_option (np_round exact_ops) (series_mean exact_ops
                (freq_col (filter (\<lambda>r'. author r' = author r) ?R) adp))"
    by blast
  from this [rule_format, OF r t]
  have "cell m ''John Dos Passos'' ''across'' = Some 2500"
    unfolding example_rows
    by (simp add: freq_col_def series_mean_def Let_def)
  with m show ?thesis by blast
qed

lemma count_list_replicate: "count_list (replicate n x) y = (if x = y then n else 0)"
  by (induction n) auto

text \<open>
  C7 as stated fails. One work of Hemingway has 64 words, 3 of them \<open>across\<close>; one
  work of Dos Passos has 2097152 words, 65537 of them \<open>across\<close>. The rates are
  468.75 and 312.50476837158203125, and the first is less than 1.5 times the second: on
  the rates as they are there is no distinctive feature. The raw dataset holds 468.75
  and 312.5, the quotient of the cells is 1.5, and the scripts store Hemingway's
  \<open>across\<close> as a distinctive feature. The token counts are powers of two, so that
  every number of this example, the stored ones and the intermediate ones but the last
  quotient, is a float64 value, and that quotient is far from the threshold.
\<close>

theorem rounding_changes_features:
  "let r1 = \<lparr>author = ''hemingway'', work = ''a'', total_words = 64,
        counts = [(''across'', 3), (''through'', 0), (''along'', 0), (''past'', 0),
                  (''around'', 0), (''beyond'', 0)],
        per_10k = [(''across'', 1875 / 4), (''through'', 0), (''along'', 0), (''past'', 0),
                  (''around'', 0), (''beyond'', 0)]\<rparr>;
       r2 = \<lparr>author = ''John Dos Passos'', work = ''1919'', total_words = 2097152,
        counts = [(''across'', 65537), (''through'', 0), (''along'', 0), (''past'', 0),
                  (''around'', 0), (''beyond'', 0)],
        per_10k = [(''across'', 625 / 2), (''through'', 0), (''along'', 0), (''past'', 0),
                  (''around'', 0), (''beyond'', 0)]\<rparr>
   in results_of_tokens exact_ops (replicate 3 ''across'' @ replicate 61 ''the'')
        ''a'' ''hemingway'' = Inr r1
    \<and> results_of_tokens exact_ops (replicate 65537 ''across'' @ replicate 2031615 ''the'')
        ''1919'' ''John Dos Passos'' = Inr r2
    \<and> corpus_features exact_ops [r1, r2]
        = Inr [\<lparr>df_author = ''hemingway'', df_adposition = ''across'',
                author_frequency = 1875 / 4, others_mean_frequency = 625 / 2,
                df_ratio = 3 / 2, distinctive_level = ''moderate''\<rparr>]
    \<and> unrounded_features exact_ops [r1, r2] = Inr []"
  by (simp add: Let_def results_of_tokens_total count_adpositions_def count_list_replicate
      corpus_features_def corpus_matrix_def unrounded_features_def
      create_comparison_matrix_def create_frequency_summary_def summary_of_author_def
      unrounded_summary_def unrounded_row_def
      to_dataframe_def TARGET_ADPOSITIONS_def unique_def author_df_def freq_col_def
      series_mean_def series_std_def series_min_def series_max_def round2_opt_def
      identify_distinctive_features_def feature_of_def other_freq_mean_def pivot_cell_def
      round2_def rint_def)

section \<open>The totals of a work\<close>

text \<open>
  The total count of a row is the sum of its counts over the target adpositions. Its
  total rate is the float quotient of that count by the number of words, times 10000,
  when the work has words; when it has none the division of the two columns gives NaN or infinity,
  never 0.
\<close>

lemma enrich_row_count:
  "total_adpositions_count (enrich_row ops tgt r) = sum_list (dropna (map (map_of (counts r)) tgt))"
  by (simp add: enrich_row_def series_sum_def Let_def work_row.defs)

lemma enrich_row_rate_pos:
  "0 < total_words r \<Longrightarrow>
   total_adpositions_per_10k (enrich_row ops tgt r)
     = Fin (fmul ops (fdiv ops (real (total_adpositions_count (enrich_row ops tgt r)))
                        (real (total_words r))) 10000)"
  by (simp add: enrich_row_def series_truediv_def Let_def work_row.defs)

lemma enrich_row_rate_zero:
  "total_words r = 0 \<Longrightarrow>
   total_adpositions_per_10k (enrich_row ops tgt r)
     = (if total_adpositions_count (enrich_row ops tgt r) = 0 then NaN else PInf)"
  by (simp add: enrich_row_def series_truediv_def Let_def work_row.defs)

text \<open>
  C6 at a work without words. An empty file gives a row of the raw dataset with no
  words and all counts 0; its rates are 0, by the guard of \<open>normalize_frequency\<close>.
  The enricher has no such guard: the total rate of that row is NaN, where C6 says 0,
  whatever the float arithmetic.
\<close>

theorem zero_word_total_rate_is_nan:
  "map_sum id (map (\<lambda>r. (total_words r, total_adpositions_count r, total_adpositions_per_10k r)))
     (calculate_total_adpositions ops
        (to_dataframe (all_results ops example_tokenizer
           (Some [\<lparr>stem = ''empty'', content = Some ''''\<rparr>]) None))
        TARGET_ADPOSITIONS) = Inr [(0, 0, NaN)]
   \<and> NaN \<noteq> Fin 0"
  by (simp add: calculate_total_adpositions_def to_dataframe_def all_results_def
      process_author_corpus_def actual_author_def process_corpus_file_def read_text_file_def
      results_of_tokens_total tokenize_text_def example_tokenizer_def lower_def
      count_adpositions_def TARGET_ADPOSITIONS_def enrich_row_def series_sum_def
      series_truediv_def Let_def work_row.defs)

section \<open>The authors of the comparables\<close>

lemma is_substring_iff: "is_substring t s \<longleftrightarrow> (\<exists>p q. s = p @ t @ q)"
proof -
  have "is_substring t s \<longleftrightarrow> sublist t s"
    by (induction s) (simp_all add: sublist_Cons_right)
  then show ?thesis by (simp add: sublist_def)
qed

lemma first_match_at:
  "i < length mp \<Longrightarrow> is_substring (fst (mp ! i)) fn \<Longrightarrow>
   \<forall>j < i. \<not> is_substring (fst (mp ! j)) fn \<Longrightarrow> first_match mp fn = snd (mp ! i)"
proof (induction mp arbitrary: i)
  case Nil
  then show ?case by simp
next
  case (Cons p mp)
  obtain t a where p: "p = (t, a)" by (cases p)
  show ?case
  proof (cases i)
    case 0
    with Cons.prems p show ?thesis by simp
  next
    case (Suc k)
    with Cons.prems have "\<not> is_substring (fst ((p # mp) ! 0)) fn" by blast
    with p have n: "\<not> is_substring t fn" by simp
    have "\<forall>j < k. \<not> is_substring (fst (mp ! j)) fn"
    proof (intro allI impI)
      fix j assume "j < k"
      with Suc have "Suc j < i" by simp
      with Cons.prems(3) have "\<not> is_substring (fst ((p # mp) ! Suc j)) fn" by blast
      then show "\<not> is_substring (fst (mp ! j)) fn" by simp
    qed
    with Cons.IH [of k] Cons.prems(1,2) Suc have "first_match mp fn = snd (mp ! k)" by simp
    with n p Suc show ?thesis by simp
  qed
qed

lemma first_match_none:
  "\<forall>t a. (t, a) \<in> set mp \<longrightarrow> \<not> is_substring t fn \<Longrightarrow> first_match mp fn = ''Unknown Author''"
proof (induction mp)
  case Nil
  then show ?case by simp
next
  case (Cons p mp)
  obtain t a where p: "p = (t, a)" by (cases p)
  from Cons.prems p have n: "\<not> is_substring t fn" by simp
  from Cons.prems have "\<forall>t a. (t, a) \<in> set mp \<longrightarrow> \<not> is_substring t fn" by simp
  from Cons.IH [OF this] n p show ?case by simp
qed

lemma results_of_tokens_keys:
  "results_of_tokens ops tokens fn auth = Inr r \<Longrightarrow> author r = auth \<and> work r = fn"
  by (auto simp: results_of_tokens_total)

lemma process_corpus_file_keys:
  "process_corpus_file ops wt f auth = Inr r \<Longrightarrow> author r = auth \<and> work r = stem f"
  by (auto simp: process_corpus_file_def split: sum.splits dest: results_of_tokens_keys)

lemma process_corpus_file_readable:
  "content f = Some text \<Longrightarrow> \<exists>r. process_corpus_file ops wt f auth = Inr r"
  by (simp add: process_corpus_file_def read_text_file_def results_of_tokens_total)

lemma process_files_authors:
  "r \<in> set (process_files ops wt an fs) \<Longrightarrow>
   \<exists>f \<in> set fs. author r = actual_author an f \<and> work r = stem f"
proof (induction fs)
  case Nil
  then show ?case by simp
next
  case (Cons f fs)
  show ?case
  proof (cases "process_corpus_file ops wt f (actual_author an f)")
    case (Inl e)
    with Cons show ?thesis by simp
  next
    case (Inr r')
    from process_corpus_file_keys [OF Inr] Cons Inr show ?thesis by auto
  qed
qed

lemma process_files_keeps:
  "f \<in> set fs \<Longrightarrow> content f = Some text \<Longrightarrow>
   \<exists>r \<in> set (process_files ops wt an fs). work r = stem f \<and> author r = actual_author an f"
proof (induction fs)
  case Nil
  then show ?case by simp
next
  case (Cons g fs)
  show ?case
  proof (cases "f = g")
    case True
    from process_corpus_file_readable [OF Cons.prems(2), of ops wt "actual_author an f"]
    obtain r where r: "process_corpus_file ops wt f (actual_author an f) = Inr r" ..
    from process_corpus_file_keys [OF r] r True show ?thesis by simp
  next
    case False
    with Cons obtain r where "r \<in> set (process_files ops wt an fs)"
      "work r = stem f \<and> author r = actual_author an f" by auto
    then show ?thesis by (cases "process_corpus_file ops wt g (actual_author an g)") auto
  qed
qed

text \<open>
  C10. The author of a file name is the author of the first title of the list that
  occurs in the name as a contiguous part, and \<open>Unknown Author\<close> when no title
  does. Every row of the comparables has the author so found from the name of its
  work, and every file of the folder that decodes has its row: a name without a known
  title is not left out.
\<close>

theorem comparables_author_first_match:
  "(\<forall>i < length author_mapping.
       is_substring (fst (author_mapping ! i)) filename
       \<and> (\<forall>j < i. \<not> is_substring (fst (author_mapping ! j)) filename)
     \<longrightarrow> get_author_from_filename filename = snd (author_mapping ! i))
   \<and> ((\<forall>t a. (t, a) \<in> set author_mapping \<longrightarrow> \<not> is_substring t filename)
        \<longrightarrow> get_author_from_filename filename = ''Unknown Author'')
   \<and> (is_substring t filename \<longleftrightarrow> (\<exists>p q. filename = p @ t @ q))
   \<and> (\<forall>r \<in> set (process_author_corpus ops wt (Some fs) ''comparables'').
         author r = get_author_from_filename (work r))
   \<and> (\<forall>f \<in> set fs. content f \<noteq> None \<longrightarrow>
         (\<exists>r \<in> set (process_author_corpus ops wt (Some fs) ''comparables'').
            work r = stem f \<and> author r = get_author_from_filename (stem f)))"
proof (intro conjI)
  show "\<forall>i < length author_mapping.
       is_substring (fst (author_mapping ! i)) filename
       \<and> (\<forall>j < i. \<not> is_substring (fst (author_mapping ! j)) filename)
     \<longrightarrow> get_author_from_filename filename = snd (author_mapping ! i)"
    unfolding get_author_from_filename_def using first_match_at by blast
  show "(\<forall>t a. (t, a) \<in> set author_mapping \<longrightarrow> \<not> is_substring t filename)
        \<longrightarrow> get_author_from_filename filename = ''Unknown Author''"
    unfolding get_author_from_filename_def using first_match_none by blast
  show "is_substring t filename \<longleftrightarrow> (\<exists>p q. filename = p @ t @ q)"
    by (rule is_substring_iff)
  show "\<forall>r \<in> set (process_author_corpus ops wt (Some fs) ''comparables'').
         author r = get_author_from_filename (work r)"
    by (auto simp: process_author_corpus_def actual_author_def dest!: process_files_authors)
  show "\<forall>f \<in> set fs. content f \<noteq> None \<longrightarrow>
         (\<exists>r \<in> set (process_author_corpus ops wt (Some fs) ''comparables'').
            work r = stem f \<and> author r = get_author_from_filename (stem f))"
  proof (intro ballI impI)
    fix f assume f: "f \<in> set fs" and "content f \<noteq> None"
    then obtain body where "content f = Some body" by auto
    from process_files_keeps [OF f this, of ops wt "''comparables''"]
    show "\<exists>r \<in> set (process_author_corpus ops wt (Some fs) ''comparables'').
            work r = stem f \<and> author r = get_author_from_filename (stem f)"
      by (simp add: process_author_corpus_def actual_author_def)
  qed
qed


theorem comparables_author_first_match_witness:
  "get_author_from_filename ''Of Mice and Men, The Great Gatsby'' = ''F. Scott Fitzgerald''
   \<and> get_author_from_filename ''Ulysses'' = ''Unknown Author''"
proof -
  let ?fn = "''Of Mice and Men, The Great Gatsby''"
  have l: "(1::nat) < length author_mapping" by (simp add: author_mapping_def)
  have m: "is_substring (fst (author_mapping ! 1)) ?fn" by (simp add: author_mapping_def)
  have n: "\<forall>j < (1::nat). \<not> is_substring (fst (author_mapping ! j)) ?fn"
    by (simp add: author_mapping_def)
  from comparables_author_first_match [of ?fn]
  have "\<forall>i < length author_mapping.
       is_substring (fst (author_mapping ! i)) ?fn
       \<and> (\<forall>j < i. \<not> is_substring (fst (author_mapping ! j)) ?fn)
     \<longrightarrow> get_author_from_filename ?fn = snd (author_mapping ! i)"
    by (rule conjunct1)
  with l m n have "get_author_from_filename ?fn = snd (author_mapping ! 1)" by blast
  then have A: "get_author_from_filename ?fn = ''F. Scott Fitzgerald''"
    by (simp add: author_mapping_def)
  have none: "\<forall>t a. (t, a) \<in> set author_mapping \<longrightarrow> \<not> is_substring t ''Ulysses''"
    by (simp add: author_mapping_def)
  from comparables_author_first_match [of "''Ulysses''"] none
  have B: "get_author_from_filename ''Ulysses'' = ''Unknown Author''" by blast
  from A B show ?thesis by (rule conjI)
qed

end
